theory Spec2Isabelle
  imports Main
begin

section \<open>JavaScript strings and numbers\<close>

text \<open>
  A JavaScript string is modelled as a \<^typ>\<open>string\<close>: a list of code units, here the code
  units 0 to 255. Every operation below looks at a code unit only to ask whether it is an
  ASCII digit, an ASCII letter, a blank or printable ASCII, so the model is exact on such text.
\<close>

definition charCode :: "char \<Rightarrow> nat" where
  "charCode c = of_char c"

definition GS :: char where
  "GS = char_of (29::nat)"

text \<open>The class \<^verbatim>\<open>\d\<close> of a regular expression: the ASCII digits.\<close>

definition isDigit :: "char \<Rightarrow> bool" where
  "isDigit c = (48 \<le> charCode c \<and> charCode c \<le> 57)"

text \<open>The complement of the class \<^verbatim>\<open>[^\x20-\x7E]\<close>: printable ASCII.\<close>

definition isPrintable :: "char \<Rightarrow> bool" where
  "isPrintable c = (32 \<le> charCode c \<and> charCode c \<le> 126)"

text \<open>White space and line terminators, as \<^verbatim>\<open>trim\<close> and \<^verbatim>\<open>parseInt\<close> skip them.\<close>

definition isSpace :: "char \<Rightarrow> bool" where
  "isSpace c = (charCode c \<in> {9, 10, 11, 12, 13, 32, 160})"

definition trim :: "string \<Rightarrow> string" where
  "trim s = rev (dropWhile isSpace (rev (dropWhile isSpace s)))"

text \<open>\<^verbatim>\<open>s.substring(a, b)\<close>: both ends clamped to the string, and swapped when \<open>a > b\<close>.\<close>

definition substring :: "string \<Rightarrow> nat \<Rightarrow> nat \<Rightarrow> string" where
  "substring s a b = take (max a b - min a b) (drop (min a b) s)"

text \<open>\<^verbatim>\<open>s.slice(a)\<close> for \<open>a \<ge> 0\<close> and \<^verbatim>\<open>s.slice(-n)\<close>.\<close>

definition slice_from :: "string \<Rightarrow> nat \<Rightarrow> string" where
  "slice_from s a = drop a s"

definition slice_last :: "string \<Rightarrow> nat \<Rightarrow> string" where
  "slice_last s n = drop (length s - n) s"

definition padStart :: "string \<Rightarrow> nat \<Rightarrow> char \<Rightarrow> string" where
  "padStart s n c = replicate (n - length s) c @ s"

definition startsWith :: "string \<Rightarrow> string \<Rightarrow> bool" where
  "startsWith s p = (take (length p) s = p)"

fun str_includes :: "string \<Rightarrow> string \<Rightarrow> bool" where
  "str_includes [] p = (p = [])"
| "str_includes (c # cs) p = (startsWith (c # cs) p \<or> str_includes cs p)"

text \<open>\<^verbatim>\<open>s.replace(/\D/g,'')\<close>, \<^verbatim>\<open>s.replace(/[\r\n\t]/g,'')\<close> and
  \<^verbatim>\<open>s.replace(/[^\x20-\x7E]/g,'')\<close>.\<close>

definition stripNonDigits :: "string \<Rightarrow> string" where
  "stripNonDigits s = filter isDigit s"

definition stripCtl :: "string \<Rightarrow> string" where
  "stripCtl s = filter (\<lambda>c. charCode c \<notin> {13, 10, 9}) s"

definition stripNonPrintable :: "string \<Rightarrow> string" where
  "stripNonPrintable s = filter isPrintable s"

text \<open>
  A JavaScript number, as far as this program computes with it: an integer or \<open>NaN\<close>.
\<close>

datatype jsnum = NaN | Num int

definition digitVal :: "char \<Rightarrow> int" where
  "digitVal c = int (charCode c) - 48"

definition decVal :: "string \<Rightarrow> int" where
  "decVal ds = foldl (\<lambda>a c. 10 * a + digitVal c) 0 ds"

definition isHexDigit :: "char \<Rightarrow> bool" where
  "isHexDigit c = (isDigit c \<or> (65 \<le> charCode c \<and> charCode c \<le> 70) \<or> (97 \<le> charCode c \<and> charCode c \<le> 102))"

definition hexDigitVal :: "char \<Rightarrow> int" where
  "hexDigitVal c = (if isDigit c then int (charCode c) - 48
                    else if charCode c \<le> 70 then int (charCode c) - 55 else int (charCode c) - 87)"

definition hexVal :: "string \<Rightarrow> int" where
  "hexVal ds = foldl (\<lambda>a c. 16 * a + hexDigitVal c) 0 ds"

text \<open>
  \<^verbatim>\<open>parseInt(s)\<close> with no radix: leading blanks are skipped, a sign is read, a prefix
  \<^verbatim>\<open>0x\<close> selects base 16, and the longest run of digits is the value; no digit gives \<open>NaN\<close>.
\<close>

definition parseDigits :: "int \<Rightarrow> string \<Rightarrow> jsnum" where
  "parseDigits sign s =
     (if startsWith s ''0x'' \<or> startsWith s ''0X'' then
        (let ds = takeWhile isHexDigit (drop 2 s)
         in if ds = [] then NaN else Num (sign * hexVal ds))
      else
        (let ds = takeWhile isDigit s
         in if ds = [] then NaN else Num (sign * decVal ds)))"

definition parseInt :: "string \<Rightarrow> jsnum" where
  "parseInt s =
     (case dropWhile isSpace s of
        [] \<Rightarrow> NaN
      | c # cs \<Rightarrow>
          if c = CHR ''-'' then parseDigits (- 1) cs
          else if c = CHR ''+'' then parseDigits 1 cs
          else parseDigits 1 (c # cs))"

text \<open>\<^verbatim>\<open>String(n)\<close> of a number.\<close>

definition digitChar :: "nat \<Rightarrow> char" where
  "digitChar d = char_of (48 + d)"

fun natString :: "nat \<Rightarrow> string" where
  "natString n = (if n < 10 then [digitChar n] else natString (n div 10) @ [digitChar (n mod 10)])"

declare natString.simps [simp del]

definition numString :: "jsnum \<Rightarrow> string" where
  "numString x =
     (case x of
        NaN \<Rightarrow> ''NaN''
      | Num n \<Rightarrow> if n < 0 then CHR ''-'' # natString (nat (- n)) else natString (nat n))"

definition numAdd :: "int \<Rightarrow> jsnum \<Rightarrow> jsnum" where
  "numAdd k x = (case x of NaN \<Rightarrow> NaN | Num n \<Rightarrow> Num (k + n))"

subsection \<open>The calendar of \<^verbatim>\<open>Date\<close>\<close>

definition isLeap :: "int \<Rightarrow> bool" where
  "isLeap y = (y mod 4 = 0 \<and> (y mod 400 = 0 \<or> y mod 100 \<noteq> 0))"

text \<open>The days of month \<open>m\<close> (1 to 12) of year \<open>y\<close>.\<close>

definition daysInMonth :: "int \<Rightarrow> int \<Rightarrow> int" where
  "daysInMonth y m =
     (if m = 2 then (if isLeap y then 29 else 28)
      else if m = 4 \<or> m = 6 \<or> m = 9 \<or> m = 11 then 30 else 31)"

text \<open>
  \<^verbatim>\<open>new Date(yr, mm, 0).getDate()\<close>: day 0 of the month with index \<open>mm\<close> (from 0) is the
  last day of the month before it; a month index outside 0 to 11 carries into the year, and
  a year from 0 to 99 means 1900 plus it. \<open>NaN\<close> in either argument gives \<open>NaN\<close>.
\<close>

definition lastDayOf :: "jsnum \<Rightarrow> jsnum \<Rightarrow> jsnum" where
  "lastDayOf yr mm =
     (case yr of
        NaN \<Rightarrow> NaN
      | Num y \<Rightarrow>
          (case mm of
             NaN \<Rightarrow> NaN
           | Num m \<Rightarrow>
               (let y0 = (if 0 \<le> y \<and> y \<le> 99 then 1900 + y else y)
                in Num (daysInMonth (y0 + (m - 1) div 12) ((m - 1) mod 12 + 1)))))"

section \<open>The GS1 parser of app.js\<close>

record gs1 =
  raw :: string
  gtin :: string
  expiry :: string
  expiryISO :: string
  expiryDisplay :: string
  batch :: string
  serial :: string
  qty :: nat
  isGS1 :: bool

text \<open>\<^verbatim>\<open>GS1._expiry(yymmdd, r)\<close>: the three numbers it reads, then the fields it fills.\<close>

definition expiryYear :: "string \<Rightarrow> jsnum" where
  "expiryYear yymmdd = numAdd 2000 (parseInt (take 2 yymmdd))"

definition expiryMonth :: "string \<Rightarrow> jsnum" where
  "expiryMonth yymmdd = parseInt (take 2 (drop 2 yymmdd))"

definition expiryDay :: "string \<Rightarrow> jsnum" where
  "expiryDay yymmdd =
     (let dd = parseInt (take 2 (drop 4 yymmdd))
      in if dd = Num 0 then lastDayOf (expiryYear yymmdd) (expiryMonth yymmdd) else dd)"

definition pad2 :: "jsnum \<Rightarrow> string" where
  "pad2 x = padStart (numString x) 2 CHR ''0''"

definition GS1_expiry :: "string \<Rightarrow> gs1 \<Rightarrow> gs1" where
  "GS1_expiry yymmdd r =
     (if length yymmdd = 6 then
        (let yr = expiryYear yymmdd; mm = expiryMonth yymmdd; dd = expiryDay yymmdd
         in r\<lparr>expiry := yymmdd,
              expiryISO := numString yr @ ''-'' @ pad2 mm @ ''-'' @ pad2 dd,
              expiryDisplay := pad2 dd @ ''/'' @ pad2 mm @ ''/'' @ numString yr\<rparr>)
      else r)"

text \<open>
  \<^verbatim>\<open>code.match(re)\<close> for a regular expression without the global flag: the match at the
  leftmost position of the string where there is one. The matcher \<open>m\<close> says what is
  captured when the expression matches at the head of its argument.
\<close>

fun search :: "(string \<Rightarrow> string option) \<Rightarrow> string \<Rightarrow> string option" where
  "search m [] = m []"
| "search m (c # cs) = (case m (c # cs) of Some v \<Rightarrow> Some v | None \<Rightarrow> search m cs)"

text \<open>A literal prefix followed by exactly \<open>n\<close> digits, as in \<^verbatim>\<open>/\(01\)(\d{14})/\<close>.\<close>

definition fixedField :: "string \<Rightarrow> nat \<Rightarrow> string \<Rightarrow> string option" where
  "fixedField p n s =
     (let t = drop (length p) s
      in if startsWith s p \<and> n \<le> length t \<and> list_all isDigit (take n t)
         then Some (take n t) else None)"

text \<open>A literal prefix followed by one or more characters other than an opening
  parenthesis, as many as there are, as in \<^verbatim>\<open>/\(10\)([^(]+)/\<close>.\<close>

definition parenField :: "string \<Rightarrow> string \<Rightarrow> string option" where
  "parenField p s =
     (let v = takeWhile (\<lambda>c. c \<noteq> CHR ''('') (drop (length p) s)
      in if startsWith s p \<and> v \<noteq> [] then Some v else None)"

text \<open>What a batch or serial value goes through before it is stored.\<close>

definition clean :: "string \<Rightarrow> string" where
  "clean v = substring (trim (stripNonPrintable v)) 0 20"

text \<open>\<^verbatim>\<open>GS1._varEnd(code, start)\<close>.\<close>

function varEnd :: "string \<Rightarrow> nat \<Rightarrow> nat" where
  "varEnd s i = (if i < length s then (if s ! i = GS then i else varEnd s (i + 1)) else length s)"
  by pat_completeness auto
termination
  by (relation "measure (\<lambda>(s, i). length s - i)") auto

declare varEnd.simps [simp del]

lemma varEnd_ge: "i \<le> length s \<Longrightarrow> i \<le> varEnd s i"
proof (induction s i rule: varEnd.induct)
  case (1 s i)
  show ?case
  proof (cases "i < length s \<and> s ! i \<noteq> GS")
    case True
    with "1.IH" have "i + 1 \<le> varEnd s (i + 1)" by simp
    with True show ?thesis by (subst varEnd.simps) simp
  next
    case False
    with "1.prems" show ?thesis by (subst varEnd.simps) auto
  qed
qed

lemma varEnd_le: "varEnd s i \<le> length s"
proof (induction s i rule: varEnd.induct)
  case (1 s i)
  then show ?case by (subst varEnd.simps) auto
qed

lemma substring_two_length: "substring s a (a + 2) = [x, y] \<Longrightarrow> a + 2 \<le> length s"
proof -
  assume h: "substring s a (a + 2) = [x, y]"
  have "length (substring s a (a + 2)) = min 2 (length s - a)"
    by (simp add: substring_def)
  with h show ?thesis by simp
qed

text \<open>
  The loop of \<^verbatim>\<open>GS1.parse\<close> over a string without parentheses: \<open>pos\<close> is the cursor and
  \<open>r\<close> the result so far.
\<close>

function scan :: "string \<Rightarrow> nat \<Rightarrow> gs1 \<Rightarrow> gs1" where
  "scan s pos r =
     (if pos < length s then
        (if s ! pos = GS then scan s (pos + 1) r
         else if substring s pos (pos + 2) = ''01'' then
           scan s (pos + 16) (r\<lparr>gtin := substring s (pos + 2) (pos + 16)\<rparr>)
         else if substring s pos (pos + 2) = ''17'' then
           scan s (pos + 8) (GS1_expiry (substring s (pos + 2) (pos + 8)) r)
         else if substring s pos (pos + 2) = ''10'' then
           scan s (varEnd s (pos + 2))
             (r\<lparr>batch := clean (substring s (pos + 2) (varEnd s (pos + 2)))\<rparr>)
         else if substring s pos (pos + 2) = ''21'' then
           scan s (varEnd s (pos + 2))
             (r\<lparr>serial := clean (substring s (pos + 2) (varEnd s (pos + 2)))\<rparr>)
         else scan s (pos + 1) r)
      else r)"
  by pat_completeness auto
termination
proof (relation "measure (\<lambda>(s, pos, r). length s - pos)")
  show "wf (measure (\<lambda>(s, pos, r). length s - pos))" by simp
next
  fix s :: string and pos :: nat and r :: gs1
  assume "pos < length s" "substring s pos (pos + 2) = ''10''"
  then show "((s, varEnd s (pos + 2), r\<lparr>batch := clean (substring s (pos + 2) (varEnd s (pos + 2)))\<rparr>), (s, pos, r))
      \<in> measure (\<lambda>(s, pos, r). length s - pos)"
    using varEnd_ge [of "pos + 2" s] substring_two_length [of s pos] by simp
next
  fix s :: string and pos :: nat and r :: gs1
  assume "pos < length s" "substring s pos (pos + 2) = ''21''"
  then show "((s, varEnd s (pos + 2), r\<lparr>serial := clean (substring s (pos + 2) (varEnd s (pos + 2)))\<rparr>), (s, pos, r))
      \<in> measure (\<lambda>(s, pos, r). length s - pos)"
    using varEnd_ge [of "pos + 2" s] substring_two_length [of s pos] by simp
qed auto

declare scan.simps [simp del]

text \<open>\<^verbatim>\<open>GS1.parse(raw)\<close>.\<close>

definition GS1_parse :: "string \<Rightarrow> gs1" where
  "GS1_parse input =
     (let result = \<lparr>raw = input, gtin = [], expiry = [], expiryISO = [], expiryDisplay = [],
                     batch = [], serial = [], qty = 1, isGS1 = False\<rparr>
      in if input = [] then result
         else
           (let code = stripCtl (trim input);
                hasParens = str_includes code ''('';
                hasRawGS1 = (fixedField ''01'' 14 code \<noteq> None)
            in if \<not> hasParens \<and> \<not> hasRawGS1 then
                 (let d = stripNonDigits code
                  in if 8 \<le> length d \<and> length d \<le> 14
                     then result\<lparr>gtin := padStart d 14 CHR ''0''\<rparr> else result)
               else if hasParens then
                 (let r1 = result\<lparr>isGS1 := True\<rparr>;
                      r2 = (case search (fixedField ''(01)'' 14) code of
                              Some g \<Rightarrow> r1\<lparr>gtin := g\<rparr> | None \<Rightarrow> r1);
                      r3 = (case search (fixedField ''(17)'' 6) code of
                              Some e \<Rightarrow> GS1_expiry e r2 | None \<Rightarrow> r2);
                      r4 = (case search (parenField ''(10)'') code of
                              Some b \<Rightarrow> r3\<lparr>batch := clean b\<rparr> | None \<Rightarrow> r3)
                  in (case search (parenField ''(21)'') code of
                        Some v \<Rightarrow> r4\<lparr>serial := clean v\<rparr> | None \<Rightarrow> r4))
               else scan code 0 (result\<lparr>isGS1 := True\<rparr>)))"

section \<open>The unified parser of \<^verbatim>\<open>enhanced_pharmacy_app.js\<close>\<close>

datatype format = GS1_PARENTHESIZED | GS1_FULL | GTIN14 | EAN13 | LEGACY12 | EAN8 | UNKNOWN

text \<open>
  The object a parse returns. A property the code does not set, or sets to \<^verbatim>\<open>null\<close>, is
  \<open>None\<close>.
\<close>

record parsed =
  p_format :: "format option"
  p_raw :: "string option"
  p_gtin :: "string option"
  expiryRaw :: "string option"
  p_expiry :: "string option"
  p_batch :: "string option"
  p_serial :: "string option"
  productionDateRaw :: "string option"
  productionDate :: "string option"
  p_code :: "string option"
  ean13 :: "string option"
  legacy :: "string option"
  error :: "string option"

definition emptyParsed :: parsed where
  "emptyParsed =
     \<lparr>p_format = None, p_raw = None, p_gtin = None, expiryRaw = None, p_expiry = None,
      p_batch = None, p_serial = None, productionDateRaw = None, productionDate = None,
      p_code = None, ean13 = None, legacy = None, error = None\<rparr>"

text \<open>\<^verbatim>\<open>detectFormat(barcode)\<close>.\<close>

definition detectFormat :: "string \<Rightarrow> format" where
  "detectFormat barcode =
     (let cleaned = stripNonDigits barcode
      in if str_includes barcode ''(01)'' then GS1_PARENTHESIZED
         else if startsWith barcode ''01'' \<and> 16 < length barcode
                 \<and> (str_includes barcode ''17'' \<or> str_includes barcode ''21''
                      \<or> str_includes barcode ''10'') then GS1_FULL
         else if length cleaned = 14 then GTIN14
         else if length cleaned = 13 then EAN13
         else if length cleaned = 12 then LEGACY12
         else if length cleaned = 8 then EAN8
         else UNKNOWN)"

text \<open>\<^verbatim>\<open>formatExpiry(yymmdd)\<close>.\<close>

definition formatExpiry :: "string \<Rightarrow> string option" where
  "formatExpiry yymmdd =
     (if length yymmdd = 6 then
        Some (''20'' @ substring yymmdd 0 2 @ ''-'' @ substring yymmdd 2 4 @ ''-''
              @ substring yymmdd 4 6)
      else None)"

text \<open>\<^verbatim>\<open>parseParenthesized(barcode)\<close>.\<close>

definition parseParenthesized :: "string \<Rightarrow> parsed" where
  "parseParenthesized barcode =
     (let d0 = emptyParsed\<lparr>p_format := Some GS1_PARENTHESIZED, p_raw := Some barcode\<rparr>;
          d1 = (case search (fixedField ''(01)'' 14) barcode of
                  Some g \<Rightarrow> d0\<lparr>p_gtin := Some g\<rparr> | None \<Rightarrow> d0);
          d2 = (case search (fixedField ''(17)'' 6) barcode of
                  Some e \<Rightarrow> d1\<lparr>expiryRaw := Some e, p_expiry := formatExpiry e\<rparr> | None \<Rightarrow> d1);
          d3 = (case search (parenField ''(10)'') barcode of
                  Some b \<Rightarrow> d2\<lparr>p_batch := Some (trim b)\<rparr> | None \<Rightarrow> d2);
          d4 = (case search (parenField ''(21)'') barcode of
                  Some v \<Rightarrow> d3\<lparr>p_serial := Some (trim v)\<rparr> | None \<Rightarrow> d3)
      in (case search (fixedField ''(11)'' 6) barcode of
            Some e \<Rightarrow> d4\<lparr>productionDateRaw := Some e, productionDate := formatExpiry e\<rparr>
          | None \<Rightarrow> d4))"

text \<open>
  A lazy run as in \<^verbatim>\<open>/10([A-Z0-9\-_/]+?)(?:17|21|11|24|01|$)/\<close>: after the literal
  prefix, the shortest non-empty run of characters of the class that is followed by one of
  the terminators or by the end of the string. \<open>acc\<close> is the run read so far.
\<close>

fun lazyRun :: "(char \<Rightarrow> bool) \<Rightarrow> string list \<Rightarrow> string \<Rightarrow> string \<Rightarrow> string option" where
  "lazyRun cls terms acc [] = Some acc"
| "lazyRun cls terms acc (c # cs) =
     (if list_ex (startsWith (c # cs)) terms then Some acc
      else if cls c then lazyRun cls terms (acc @ [c]) cs else None)"

definition lazyField :: "string \<Rightarrow> (char \<Rightarrow> bool) \<Rightarrow> string list \<Rightarrow> string \<Rightarrow> string option" where
  "lazyField p cls terms s =
     (if startsWith s p then
        (case drop (length p) s of
           [] \<Rightarrow> None
         | c # cs \<Rightarrow> if cls c then lazyRun cls terms [c] cs else None)
      else None)"

definition isUpperOrDigit :: "char \<Rightarrow> bool" where
  "isUpperOrDigit c = (isDigit c \<or> (65 \<le> charCode c \<and> charCode c \<le> 90))"

definition isBatchChar :: "char \<Rightarrow> bool" where
  "isBatchChar c = (isUpperOrDigit c \<or> c = CHR ''-'' \<or> c = CHR ''_'' \<or> c = CHR ''/'')"

text \<open>\<^verbatim>\<open>parseNonParenthesized(barcode)\<close>.\<close>

definition parseNonParenthesized :: "string \<Rightarrow> parsed" where
  "parseNonParenthesized barcode =
     (let d0 = emptyParsed\<lparr>p_format := Some GS1_FULL, p_raw := Some barcode\<rparr>;
          d1 = (if startsWith barcode ''01''
                then d0\<lparr>p_gtin := Some (substring barcode 2 16)\<rparr> else d0);
          remaining = slice_from barcode 16;
          d2 = (case search (fixedField ''17'' 6) remaining of
                  Some e \<Rightarrow> d1\<lparr>expiryRaw := Some e, p_expiry := formatExpiry e\<rparr> | None \<Rightarrow> d1);
          d3 = (case search (lazyField ''10'' isBatchChar [''17'', ''21'', ''11'', ''24'', ''01''])
                       remaining of
                  Some b \<Rightarrow> d2\<lparr>p_batch := Some b\<rparr> | None \<Rightarrow> d2);
          d4 = (case search (lazyField ''21'' isUpperOrDigit [''17'', ''10'', ''11'', ''24'', ''01''])
                       remaining of
                  Some v \<Rightarrow> d3\<lparr>p_serial := Some v\<rparr> | None \<Rightarrow> d3)
      in (case search (fixedField ''11'' 6) remaining of
            Some e \<Rightarrow> d4\<lparr>productionDateRaw := Some e, productionDate := formatExpiry e\<rparr>
          | None \<Rightarrow> d4))"

text \<open>\<^verbatim>\<open>parseSimple(barcode, format)\<close>.\<close>

definition parseSimple :: "string \<Rightarrow> format \<Rightarrow> parsed" where
  "parseSimple barcode fmt =
     (let cleaned = stripNonDigits barcode
      in emptyParsed\<lparr>p_format := Some fmt, p_raw := Some barcode, p_code := Some cleaned,
                      p_gtin := (if fmt = GTIN14 then Some cleaned else None),
                      ean13 := (if fmt = EAN13 then Some cleaned else None),
                      legacy := (if fmt = LEGACY12 then Some cleaned else None)\<rparr>)"

text \<open>\<^verbatim>\<open>parse(barcode)\<close> of the unified parser. None of the string operations of its
  branches throws, so the \<^verbatim>\<open>catch\<close> branch is never taken.\<close>

definition parse :: "string \<Rightarrow> parsed" where
  "parse barcode =
     (if length (trim barcode) = 0 then emptyParsed\<lparr>error := Some ''Empty barcode''\<rparr>
      else
        (case detectFormat barcode of
           GS1_PARENTHESIZED \<Rightarrow> parseParenthesized barcode
         | GS1_FULL \<Rightarrow> parseNonParenthesized barcode
         | GTIN14 \<Rightarrow> parseSimple barcode GTIN14
         | EAN13 \<Rightarrow> parseSimple barcode EAN13
         | LEGACY12 \<Rightarrow> parseSimple barcode LEGACY12
         | EAN8 \<Rightarrow> parseSimple barcode EAN8
         | UNKNOWN \<Rightarrow>
             emptyParsed\<lparr>p_format := Some UNKNOWN, p_raw := Some barcode,
                          error := Some ''Unrecognized barcode format''\<rparr>))"

section \<open>The master index of app.js\<close>

record item =
  barcode :: string
  name :: string
  rms :: string

text \<open>The two maps of the state \<^verbatim>\<open>S\<close>: bar code to name, bar code to RMS code.\<close>

record index =
  masterIndex :: "string \<rightharpoonup> string"
  masterRMS :: "string \<rightharpoonup> string"

text \<open>The keys one item is filed under: the array of \<^verbatim>\<open>Master.build\<close> after
  \<^verbatim>\<open>filter(Boolean)\<close>.\<close>

definition keysOf :: "string \<Rightarrow> string list" where
  "keysOf bc =
     (let g14 = padStart bc 14 CHR ''0''
      in filter (\<lambda>k. k \<noteq> [])
           [bc, g14, if startsWith g14 ''0'' then slice_from g14 1 else [], slice_last bc 8])"

text \<open>The body of the \<^verbatim>\<open>forEach\<close>: an empty string stands for a missing RMS code.\<close>

definition register :: "item \<Rightarrow> index \<Rightarrow> string \<Rightarrow> index" where
  "register it S k =
     (let S1 = (if masterIndex S k = None
                then S\<lparr>masterIndex := (masterIndex S)(k \<mapsto> name it)\<rparr> else S)
      in if rms it \<noteq> [] \<and> masterRMS S1 k = None
         then S1\<lparr>masterRMS := (masterRMS S1)(k \<mapsto> rms it)\<rparr> else S1)"

fun buildLoop :: "item list \<Rightarrow> index \<Rightarrow> index" where
  "buildLoop [] S = S"
| "buildLoop (it # its) S =
     (let bc = stripNonDigits (barcode it)
      in if bc = [] \<or> length bc < 8 then buildLoop its S
         else buildLoop its (foldl (register it) S (keysOf bc)))"

text \<open>\<^verbatim>\<open>Master.build(data)\<close>: both maps are cleared first.\<close>

definition Master_build :: "item list \<Rightarrow> index" where
  "Master_build data = buildLoop data \<lparr>masterIndex = Map.empty, masterRMS = Map.empty\<rparr>"

datatype confidence = EXACT | PARTIAL | NONE

record found =
  f_name :: string
  f_rms :: string
  how :: confidence

definition notFound :: found where
  "notFound = \<lparr>f_name = [], f_rms = [], how = NONE\<rparr>"

fun findLoop :: "index \<Rightarrow> string \<Rightarrow> string list \<Rightarrow> found" where
  "findLoop S g [] = notFound"
| "findLoop S g (c # cs) =
     (case masterIndex S c of
        Some n \<Rightarrow>
          \<lparr>f_name = n, f_rms = (case masterRMS S c of Some r \<Rightarrow> r | None \<Rightarrow> []),
           how = (if c = g then EXACT else PARTIAL)\<rparr>
      | None \<Rightarrow> findLoop S g cs)"

text \<open>\<^verbatim>\<open>Master.find(gtin)\<close>, on the index \<open>S\<close>.\<close>

definition Master_find :: "index \<Rightarrow> string \<Rightarrow> found" where
  "Master_find S g =
     (if g = [] then notFound
      else findLoop S g
             (filter (\<lambda>k. k \<noteq> [])
                [g, if startsWith g ''0'' then slice_from g 1 else [], slice_last g 8]))"

section \<open>Expiry status and OCR text of app.js\<close>

text \<open>
  A \<^verbatim>\<open>Date\<close> is its time value: milliseconds since 1970-01-01T00:00Z. The day number of
  a calendar date follows the standard's \<^verbatim>\<open>DayFromYear\<close>.
\<close>

definition msPerDay :: int where
  "msPerDay = 86400000"

definition dayFromYear :: "int \<Rightarrow> int" where
  "dayFromYear y = 365 * (y - 1970) + (y - 1969) div 4 - (y - 1901) div 100 + (y - 1601) div 400"

definition dayNumber :: "int \<Rightarrow> int \<Rightarrow> int \<Rightarrow> int" where
  "dayNumber y m d = dayFromYear y + sum_list (map (daysInMonth y) [1..m - 1]) + (d - 1)"

text \<open>
  \<^verbatim>\<open>new Date(isoDate)\<close> for a date-only string \<^verbatim>\<open>YYYY-MM-DD\<close>: midnight of that day in
  UTC. \<open>None\<close> is the invalid date, which the date-time string format prescribes for
  any other text; what an engine makes of other text beyond the standard is not modelled.
\<close>

definition parseDate :: "string \<Rightarrow> int option" where
  "parseDate s =
     (if length s = 10 \<and> list_all isDigit (take 4 s) \<and> s ! 4 = CHR ''-''
         \<and> list_all isDigit (take 2 (drop 5 s)) \<and> s ! 7 = CHR ''-''
         \<and> list_all isDigit (drop 8 s) then
        (let y = decVal (take 4 s); m = decVal (take 2 (drop 5 s)); d = decVal (drop 8 s)
         in if 1 \<le> m \<and> m \<le> 12 \<and> 1 \<le> d \<and> d \<le> daysInMonth y m
            then Some (msPerDay * dayNumber y m d) else None)
      else None)"

text \<open>
  \<^verbatim>\<open>d.setHours(0,0,0,0)\<close>: midnight, in local time, of the local day of \<open>t\<close>. Local time
  is UTC plus \<open>tz\<close> milliseconds; the model takes the offset of the zone as fixed.
\<close>

definition startOfDay :: "int \<Rightarrow> int \<Rightarrow> int" where
  "startOfDay tz t = (t + tz) div msPerDay * msPerDay - tz"

datatype status = unknown | expired | expiring | ok

text \<open>
  \<^verbatim>\<open>GS1.status(isoDate)\<close>. The clock reading \<open>now\<close> of \<^verbatim>\<open>new Date()\<close>, the zone
  offset \<open>tz\<close> and the threshold \<^verbatim>\<open>CFG.SOON_DAYS\<close> are parameters. Every comparison with
  the \<open>NaN\<close> of an invalid date is false, which leads to the last \<^verbatim>\<open>return\<close>.
\<close>

definition SOON_DAYS :: int where
  "SOON_DAYS = 90"

definition GS1_status :: "int \<Rightarrow> int \<Rightarrow> int \<Rightarrow> string \<Rightarrow> status" where
  "GS1_status soonDays tz now isoDate =
     (if isoDate = [] then unknown
      else
        (case parseDate isoDate of
           None \<Rightarrow> ok
         | Some e \<Rightarrow>
             (let today = startOfDay tz now;
                  exp = startOfDay tz e;
                  diff = (exp - today) div msPerDay
              in if diff < 0 then expired
                 else if diff \<le> soonDays then expiring
                 else ok)))"

text \<open>
  The first statement of \<^verbatim>\<open>extractDateFromOCR(text)\<close>: the text \<^verbatim>\<open>t\<close> that every date
  pattern is matched against. \<^verbatim>\<open>toUpperCase\<close> is modelled on ASCII letters.
\<close>

definition toUpperChar :: "char \<Rightarrow> char" where
  "toUpperChar c =
     (if 97 \<le> charCode c \<and> charCode c \<le> 122 then char_of (charCode c - 32) else c)"

definition toUpperCase :: "string \<Rightarrow> string" where
  "toUpperCase s = map toUpperChar s"

definition normalise :: "string \<Rightarrow> string" where
  "normalise text =
     map (\<lambda>c. if c = CHR ''O'' then CHR ''0'' else c)
       (map (\<lambda>c. if c = CHR ''|'' \<or> c = CHR ''I'' \<or> c = CHR ''l'' then CHR ''1'' else c)
          (toUpperCase text))"

section \<open>Notions used in the statements\<close>

text \<open>The item \<open>it\<close> is kept by \<^verbatim>\<open>Master.build\<close> and files itself under the key \<open>k\<close>.\<close>

definition claimsKey :: "item \<Rightarrow> string \<Rightarrow> bool" where
  "claimsKey it k =
     (let bc = stripNonDigits (barcode it)
      in \<not> (bc = [] \<or> length bc < 8) \<and> k \<in> set (keysOf bc))"

text \<open>What \<^verbatim>\<open>Master.find\<close> answers when the candidate \<open>c\<close> is in the index.\<close>

definition entryAt :: "index \<Rightarrow> string \<Rightarrow> confidence \<Rightarrow> found" where
  "entryAt S c h =
     \<lparr>f_name = (case masterIndex S c of Some n \<Rightarrow> n | None \<Rightarrow> []),
      f_rms = (case masterRMS S c of Some r \<Rightarrow> r | None \<Rightarrow> []),
      how = h\<rparr>"

text \<open>The text \<^verbatim>\<open>GS1._expiry\<close> writes for the year \<open>y\<close>, the month \<open>m\<close> and the day \<open>d\<close>.\<close>

definition isoDate :: "int \<Rightarrow> int \<Rightarrow> int \<Rightarrow> string" where
  "isoDate y m d = numString (Num y) @ ''-'' @ pad2 (Num m) @ ''-'' @ pad2 (Num d)"

text \<open>
  The two encodings of a GTIN \<open>g\<close>, an expiry token \<open>e\<close>, a batch \<open>b\<close> and a serial \<open>s\<close>:
  with the application identifiers in parentheses, and positional, with \<open>i\<close> group
  separators after the GTIN, \<open>j\<close> after the expiry token and \<open>1 + k\<close> after the batch, the
  variable-length field that is not the last one.
\<close>

definition parenthesized :: "string \<Rightarrow> string \<Rightarrow> string \<Rightarrow> string \<Rightarrow> string" where
  "parenthesized g e b s = ''(01)'' @ g @ ''(17)'' @ e @ ''(10)'' @ b @ ''(21)'' @ s"

definition positional ::
  "nat \<Rightarrow> nat \<Rightarrow> nat \<Rightarrow> string \<Rightarrow> string \<Rightarrow> string \<Rightarrow> string \<Rightarrow> string" where
  "positional i j k g e b s =
     ''01'' @ g @ replicate i GS @ ''17'' @ e @ replicate j GS @ ''10'' @ b
       @ replicate (Suc k) GS @ ''21'' @ s"

text \<open>A character of a batch or serial value that neither encoding gives a meaning to.\<close>

definition plainChar :: "char \<Rightarrow> bool" where
  "plainChar c = (c \<noteq> CHR ''('' \<and> c \<noteq> GS)"

text \<open>A string without its trailing blanks.\<close>

definition trimEnd :: "string \<Rightarrow> string" where
  "trimEnd s = rev (dropWhile isSpace (rev s))"

section \<open>Characters\<close>

lemma GS_code: "charCode GS = 29"
  by (simp add: GS_def charCode_def)

lemma GS_neq: "charCode c \<noteq> 29 \<Longrightarrow> c \<noteq> GS"
  by (auto simp: GS_code)

lemma digit_plain: "isDigit c \<Longrightarrow> c \<noteq> CHR ''('' \<and> c \<noteq> GS"
  by (auto simp: isDigit_def charCode_def GS_def)

lemma digit_not_space: "isDigit c \<Longrightarrow> \<not> isSpace c"
  by (auto simp: isDigit_def isSpace_def)

lemma digit_not_ctl: "isDigit c \<Longrightarrow> charCode c \<notin> {13, 10, 9}"
  by (auto simp: isDigit_def)

lemma digit_not_sign:
  "isDigit c \<Longrightarrow> c \<noteq> CHR ''-'' \<and> c \<noteq> CHR ''+'' \<and> c \<noteq> CHR ''x'' \<and> c \<noteq> CHR ''X''"
  by (auto simp: isDigit_def charCode_def)

section \<open>Digits survive the clean-up of the input\<close>

lemma filter_dropWhile_disjoint:
  "(\<And>x. Q x \<Longrightarrow> \<not> P x) \<Longrightarrow> filter Q (dropWhile P xs) = filter Q xs"
  by (induction xs) auto

lemma stripNonDigits_trim: "stripNonDigits (trim s) = stripNonDigits s"
proof -
  have "filter isDigit (rev (dropWhile isSpace (rev (dropWhile isSpace s))))
        = rev (filter isDigit (dropWhile isSpace (rev (dropWhile isSpace s))))"
    by (simp add: rev_filter)
  also have "\<dots> = rev (filter isDigit (rev (dropWhile isSpace s)))"
    by (simp add: filter_dropWhile_disjoint digit_not_space)
  also have "\<dots> = filter isDigit (dropWhile isSpace s)"
    by (simp add: rev_filter)
  also have "\<dots> = filter isDigit s"
    by (simp add: filter_dropWhile_disjoint digit_not_space)
  finally show ?thesis by (simp add: stripNonDigits_def trim_def)
qed

lemma stripNonDigits_stripCtl: "stripNonDigits (stripCtl s) = stripNonDigits s"
proof -
  have "filter isDigit (filter (\<lambda>c. charCode c \<notin> {13, 10, 9}) s) = filter isDigit s"
    by (induction s) (use digit_not_ctl in auto)
  then show ?thesis by (simp add: stripNonDigits_def stripCtl_def)
qed

lemma in_dropWhile: "x \<in> set xs \<Longrightarrow> \<not> P x \<Longrightarrow> x \<in> set (dropWhile P xs)"
  by (induction xs) auto

lemma trim_nonempty:
  assumes "stripNonDigits b \<noteq> []"
  shows "trim b \<noteq> []"
proof -
  from assms obtain c where c: "c \<in> set b" "isDigit c"
    by (auto simp: stripNonDigits_def filter_empty_conv)
  then have "c \<in> set (dropWhile isSpace b)"
    by (simp add: in_dropWhile digit_not_space)
  then have "c \<in> set (rev (dropWhile isSpace b))" by simp
  then have "c \<in> set (dropWhile isSpace (rev (dropWhile isSpace b)))"
    using c by (simp add: in_dropWhile digit_not_space)
  then have "0 < length (trim b)"
    unfolding trim_def length_rev by (rule length_pos_if_in_set)
  then show ?thesis by auto
qed

lemma padStart_full: "n \<le> length s \<Longrightarrow> padStart s n c = s"
  by (simp add: padStart_def)

section \<open>The loop of the positional parse\<close>

lemma GS1_expiry_isGS1: "isGS1 (GS1_expiry t r) = isGS1 r"
  by (simp add: GS1_expiry_def Let_def)

lemma scan_isGS1: "isGS1 (scan s pos r) = isGS1 r"
proof (induction s pos r rule: scan.induct)
  case (1 s pos r)
  from "1.IH" show ?case
    by (subst scan.simps) (auto simp: GS1_expiry_isGS1)
qed

lemma varEnd_run:
  assumes "list_all (\<lambda>c. c \<noteq> GS) v" and "rest = [] \<or> hd rest = GS"
  shows "varEnd (p @ v @ rest) (length p) = length p + length v"
  using assms(1)
proof (induction v arbitrary: p)
  case Nil
  from assms(2) show ?case
    by (subst varEnd.simps) (cases rest; auto simp: nth_append)
next
  case (Cons x xs)
  have "varEnd (p @ (x # xs) @ rest) (length p) = varEnd (p @ (x # xs) @ rest) (length p + 1)"
    using Cons.prems by (subst varEnd.simps) (simp add: nth_append)
  also have "\<dots> = varEnd ((p @ [x]) @ xs @ rest) (length (p @ [x]))"
    by simp
  also have "\<dots> = length (p @ [x]) + length xs"
    using Cons.prems by (intro Cons.IH) simp
  finally show ?case by simp
qed

lemma scan_sep: "scan (pre @ GS # rest) (length pre) r = scan (pre @ GS # rest) (length pre + 1) r"
  by (subst scan.simps) (simp add: nth_append)

lemma scan_done: "length s \<le> n \<Longrightarrow> scan s n r = r"
  by (subst scan.simps) simp

lemma scan_gtin:
  "scan (pre @ ''01'' @ rest) (length pre) r
     = scan (pre @ ''01'' @ rest) (length pre + 16) (r\<lparr>gtin := take 14 rest\<rparr>)"
proof -
  have a: "substring (pre @ ''01'' @ rest) (length pre) (length pre + 2) = ''01''"
    by (simp add: substring_def)
  have b: "substring (pre @ ''01'' @ rest) (length pre + 2) (length pre + 16) = take 14 rest"
    by (simp add: substring_def)
  have c: "(pre @ ''01'' @ rest) ! length pre \<noteq> GS"
    by (simp add: nth_append GS_neq charCode_def)
  have d: "length pre < length (pre @ ''01'' @ rest)" by simp
  show ?thesis
    by (subst scan.simps) (simp only: a b c d if_True if_False simp_thms)
qed

lemma scan_expiry:
  "scan (pre @ ''17'' @ rest) (length pre) r
     = scan (pre @ ''17'' @ rest) (length pre + 8) (GS1_expiry (take 6 rest) r)"
proof -
  have a: "substring (pre @ ''17'' @ rest) (length pre) (length pre + 2) = ''17''"
    by (simp add: substring_def)
  have b: "substring (pre @ ''17'' @ rest) (length pre + 2) (length pre + 8) = take 6 rest"
    by (simp add: substring_def)
  have c: "(pre @ ''17'' @ rest) ! length pre \<noteq> GS"
    by (simp add: nth_append GS_neq charCode_def)
  have d: "length pre < length (pre @ ''17'' @ rest)" by simp
  have e: "''17'' \<noteq> ''01''" by simp
  show ?thesis
    by (subst scan.simps) (simp only: a b c d e if_True if_False simp_thms)
qed

lemma scan_batch:
  assumes "list_all (\<lambda>c. c \<noteq> GS) v" and "rest = [] \<or> hd rest = GS"
  shows "scan (pre @ ''10'' @ v @ rest) (length pre) r
     = scan (pre @ ''10'' @ v @ rest) (length pre + 2 + length v) (r\<lparr>batch := clean v\<rparr>)"
proof -
  let ?s = "pre @ ''10'' @ v @ rest"
  have a: "substring ?s (length pre) (length pre + 2) = ''10''"
    by (simp add: substring_def)
  have "varEnd ((pre @ ''10'') @ v @ rest) (length (pre @ ''10'')) = length (pre @ ''10'') + length v"
    using assms by (rule varEnd_run)
  then have v: "varEnd ?s (length pre + 2) = length pre + 2 + length v" by simp
  have b: "substring ?s (length pre + 2) (length pre + 2 + length v) = v"
    by (simp add: substring_def)
  have c: "?s ! length pre \<noteq> GS"
    by (simp add: nth_append GS_neq charCode_def)
  have d: "length pre < length ?s" by simp
  have e: "''10'' \<noteq> ''01''" "''10'' \<noteq> ''17''" by simp_all
  show ?thesis
    by (subst scan.simps) (simp only: a b c d e v if_True if_False simp_thms)
qed

lemma scan_serial:
  assumes "list_all (\<lambda>c. c \<noteq> GS) v" and "rest = [] \<or> hd rest = GS"
  shows "scan (pre @ ''21'' @ v @ rest) (length pre) r
     = scan (pre @ ''21'' @ v @ rest) (length pre + 2 + length v) (r\<lparr>serial := clean v\<rparr>)"
proof -
  let ?s = "pre @ ''21'' @ v @ rest"
  have a: "substring ?s (length pre) (length pre + 2) = ''21''"
    by (simp add: substring_def)
  have "varEnd ((pre @ ''21'') @ v @ rest) (length (pre @ ''21'')) = length (pre @ ''21'') + length v"
    using assms by (rule varEnd_run)
  then have v: "varEnd ?s (length pre + 2) = length pre + 2 + length v" by simp
  have b: "substring ?s (length pre + 2) (length pre + 2 + length v) = v"
    by (simp add: substring_def)
  have c: "?s ! length pre \<noteq> GS"
    by (simp add: nth_append GS_neq charCode_def)
  have d: "length pre < length ?s" by simp
  have e: "''21'' \<noteq> ''01''" "''21'' \<noteq> ''17''" "''21'' \<noteq> ''10''" by simp_all
  show ?thesis
    by (subst scan.simps) (simp only: a b c d e v if_True if_False simp_thms)
qed

lemma plain_no_GS: "list_all plainChar v \<Longrightarrow> list_all (\<lambda>c. c \<noteq> GS) v"
  by (induction v) (auto simp: plainChar_def)

lemma scan_seps:
  "scan (pre @ replicate n GS @ rest) (length pre) r
     = scan (pre @ replicate n GS @ rest) (length pre + n) r"
proof (induction n arbitrary: pre)
  case 0
  show ?case by simp
next
  case (Suc n)
  have "scan (pre @ GS # (replicate n GS @ rest)) (length pre) r
      = scan (pre @ GS # (replicate n GS @ rest)) (length pre + 1) r"
    by (rule scan_sep)
  also have "\<dots> = scan ((pre @ [GS]) @ replicate n GS @ rest) (length (pre @ [GS])) r"
    by simp
  also have "\<dots> = scan ((pre @ [GS]) @ replicate n GS @ rest) (length (pre @ [GS]) + n) r"
    by (rule Suc.IH)
  finally show ?case by simp
qed

lemma scan_positional:
  assumes "length g = 14" and "length e = 6"
    and "list_all plainChar B" and "list_all plainChar S"
  shows "scan (''01'' @ g @ replicate i GS @ ''17'' @ e @ replicate j GS @ ''10'' @ B
                 @ replicate (Suc k) GS @ ''21'' @ S) 0 r
     = (GS1_expiry e (r\<lparr>gtin := g\<rparr>))\<lparr>batch := clean B, serial := clean S\<rparr>"
proof -
  let ?t4 = "''21'' @ S"
  let ?t3 = "''10'' @ B @ replicate (Suc k) GS @ ?t4"
  let ?t2 = "''17'' @ e @ replicate j GS @ ?t3"
  let ?s = "''01'' @ g @ replicate i GS @ ?t2"
  let ?r1 = "r\<lparr>gtin := g\<rparr>"
  let ?r2 = "GS1_expiry e ?r1"
  let ?r3 = "?r2\<lparr>batch := clean B\<rparr>"
  let ?r4 = "?r3\<lparr>serial := clean S\<rparr>"
  have "scan ([] @ ''01'' @ (g @ replicate i GS @ ?t2)) (length ([]::string)) r
      = scan ([] @ ''01'' @ (g @ replicate i GS @ ?t2)) (length ([]::string) + 16)
          (r\<lparr>gtin := take 14 (g @ replicate i GS @ ?t2)\<rparr>)"
    by (rule scan_gtin)
  then have s1: "scan ?s 0 r = scan ?s 16 ?r1"
    using assms(1) by simp
  have "scan ((''01'' @ g) @ replicate i GS @ ?t2) (length (''01'' @ g)) ?r1
      = scan ((''01'' @ g) @ replicate i GS @ ?t2) (length (''01'' @ g) + i) ?r1"
    by (rule scan_seps)
  then have s1': "scan ?s 16 ?r1 = scan ?s (16 + i) ?r1"
    using assms(1) by simp
  have "scan ((''01'' @ g @ replicate i GS) @ ''17'' @ (e @ replicate j GS @ ?t3))
          (length (''01'' @ g @ replicate i GS)) ?r1
      = scan ((''01'' @ g @ replicate i GS) @ ''17'' @ (e @ replicate j GS @ ?t3))
          (length (''01'' @ g @ replicate i GS) + 8)
          (GS1_expiry (take 6 (e @ replicate j GS @ ?t3)) ?r1)"
    by (rule scan_expiry)
  then have s2: "scan ?s (16 + i) ?r1 = scan ?s (24 + i) ?r2"
    using assms(1,2) by (simp add: ac_simps)
  have "scan ((''01'' @ g @ replicate i GS @ ''17'' @ e) @ replicate j GS @ ?t3)
          (length (''01'' @ g @ replicate i GS @ ''17'' @ e)) ?r2
      = scan ((''01'' @ g @ replicate i GS @ ''17'' @ e) @ replicate j GS @ ?t3)
          (length (''01'' @ g @ replicate i GS @ ''17'' @ e) + j) ?r2"
    by (rule scan_seps)
  then have s2': "scan ?s (24 + i) ?r2 = scan ?s (24 + i + j) ?r2"
    using assms(1,2) by (simp add: ac_simps)
  have "scan ((''01'' @ g @ replicate i GS @ ''17'' @ e @ replicate j GS) @ ''10'' @ B
                @ (replicate (Suc k) GS @ ?t4))
          (length (''01'' @ g @ replicate i GS @ ''17'' @ e @ replicate j GS)) ?r2
      = scan ((''01'' @ g @ replicate i GS @ ''17'' @ e @ replicate j GS) @ ''10'' @ B
                @ (replicate (Suc k) GS @ ?t4))
          (length (''01'' @ g @ replicate i GS @ ''17'' @ e @ replicate j GS) + 2 + length B)
          (?r2\<lparr>batch := clean B\<rparr>)"
    using assms(3) by (intro scan_batch plain_no_GS) simp_all
  then have s3: "scan ?s (24 + i + j) ?r2 = scan ?s (26 + i + j + length B) ?r3"
    using assms(1,2) by (simp add: ac_simps)
  have "scan ((''01'' @ g @ replicate i GS @ ''17'' @ e @ replicate j GS @ ''10'' @ B)
                @ replicate (Suc k) GS @ ?t4)
          (length (''01'' @ g @ replicate i GS @ ''17'' @ e @ replicate j GS @ ''10'' @ B)) ?r3
      = scan ((''01'' @ g @ replicate i GS @ ''17'' @ e @ replicate j GS @ ''10'' @ B)
                @ replicate (Suc k) GS @ ?t4)
          (length (''01'' @ g @ replicate i GS @ ''17'' @ e @ replicate j GS @ ''10'' @ B) + Suc k)
          ?r3"
    by (rule scan_seps)
  then have s4: "scan ?s (26 + i + j + length B) ?r3 = scan ?s (27 + i + j + length B + k) ?r3"
    using assms(1,2) by (simp add: ac_simps)
  have "scan ((''01'' @ g @ replicate i GS @ ''17'' @ e @ replicate j GS @ ''10'' @ B
                 @ replicate (Suc k) GS) @ ''21'' @ S @ [])
          (length (''01'' @ g @ replicate i GS @ ''17'' @ e @ replicate j GS @ ''10'' @ B
                 @ replicate (Suc k) GS)) ?r3
      = scan ((''01'' @ g @ replicate i GS @ ''17'' @ e @ replicate j GS @ ''10'' @ B
                 @ replicate (Suc k) GS) @ ''21'' @ S @ [])
          (length (''01'' @ g @ replicate i GS @ ''17'' @ e @ replicate j GS @ ''10'' @ B
                 @ replicate (Suc k) GS) + 2 + length S)
          (?r3\<lparr>serial := clean S\<rparr>)"
    using assms(4) by (intro scan_serial plain_no_GS) simp_all
  then have s5: "scan ?s (27 + i + j + length B + k) ?r3
      = scan ?s (29 + i + j + length B + k + length S) ?r4"
    using assms(1,2) by (simp add: ac_simps)
  have s6: "scan ?s (29 + i + j + length B + k + length S) ?r4 = ?r4"
    using assms(1,2) by (intro scan_done) simp
  from s1 s1' s2 s2' s3 s4 s5 s6 show ?thesis by simp
qed

section \<open>Matching in the parenthesized parse\<close>

lemma fixedField_None: "\<not> startsWith s p \<Longrightarrow> fixedField p n s = None"
  by (simp add: fixedField_def Let_def)

lemma parenField_None: "\<not> startsWith s p \<Longrightarrow> parenField p s = None"
  by (simp add: parenField_def Let_def)

lemma search_skip_chars:
  assumes "\<And>s. \<not> startsWith s (CHR ''('' # p) \<Longrightarrow> m s = None"
    and "list_all (\<lambda>c. c \<noteq> CHR ''('') xs"
  shows "search m (xs @ rest) = search m rest"
  using assms(2)
proof (induction xs)
  case Nil
  show ?case by simp
next
  case (Cons x xs)
  then have "\<not> startsWith ((x # xs) @ rest) (CHR ''('' # p)"
    by (auto simp: startsWith_def)
  then have "m ((x # xs) @ rest) = None" by (rule assms(1))
  with Cons show ?case by simp
qed

lemma search_skip_tag:
  assumes "\<And>s. \<not> startsWith s (CHR ''('' # p) \<Longrightarrow> m s = None"
    and "length q = length p" and "q \<noteq> p"
    and "list_all (\<lambda>c. c \<noteq> CHR ''('') q"
  shows "search m ((CHR ''('' # q) @ rest) = search m rest"
proof -
  from assms(2,3) have "\<not> startsWith ((CHR ''('' # q) @ rest) (CHR ''('' # p)"
    by (auto simp: startsWith_def)
  then have "m ((CHR ''('' # q) @ rest) = None" by (rule assms(1))
  then have "search m ((CHR ''('' # q) @ rest) = search m (q @ rest)" by simp
  also have "\<dots> = search m rest" using assms(1,4) by (rule search_skip_chars)
  finally show ?thesis .
qed

lemma takeWhile_plain:
  "list_all (\<lambda>c. c \<noteq> CHR ''('') v \<Longrightarrow> takeWhile (\<lambda>c. c \<noteq> CHR ''('') (v @ CHR ''('' # rest) = v"
  by (induction v) auto

lemma takeWhile_all: "list_all P v \<Longrightarrow> takeWhile P v = v"
  by (induction v) auto

lemma plain_no_paren: "list_all plainChar v \<Longrightarrow> list_all (\<lambda>c. c \<noteq> CHR ''('') v"
  by (induction v) (auto simp: plainChar_def)

lemma digits_no_paren: "list_all isDigit v \<Longrightarrow> list_all (\<lambda>c. c \<noteq> CHR ''('') v"
  by (induction v) (auto simp: digit_plain)

lemma paren_gtin:
  assumes "length g = 14" and "list_all isDigit g"
  shows "search (fixedField ''(01)'' 14) (''(01)'' @ g @ rest) = Some g"
  using assms by (simp add: fixedField_def startsWith_def)

lemma paren_expiry:
  assumes "list_all isDigit g" and "length e = 6" and "list_all isDigit e"
  shows "search (fixedField ''(17)'' 6) (''(01)'' @ g @ ''(17)'' @ e @ rest) = Some e"
proof -
  let ?m = "fixedField ''(17)'' 6"
  have "search ?m ((CHR ''('' # ''01)'') @ g @ ''(17)'' @ e @ rest) = search ?m (g @ ''(17)'' @ e @ rest)"
    by (rule search_skip_tag [where p = "''17)''"]) (simp_all add: fixedField_None)
  also have "\<dots> = search ?m (''(17)'' @ e @ rest)"
    using assms(1)
    by (intro search_skip_chars [where p = "''17)''"]) (simp_all add: fixedField_None digits_no_paren)
  also have "\<dots> = Some e"
    using assms(2,3) by (simp add: fixedField_def startsWith_def)
  finally show ?thesis by simp
qed

lemma paren_var_here:
  assumes "list_all (\<lambda>c. c \<noteq> CHR ''('') v" and "length tag = 3"
    and "list_all (\<lambda>c. c \<noteq> CHR ''('') tag"
    and "rest = [] \<or> (\<exists>q r. rest = (CHR ''('' # q) @ r \<and> length q = 3 \<and> q \<noteq> tag
            \<and> list_all (\<lambda>c. c \<noteq> CHR ''('') q \<and> list_all (\<lambda>c. c \<noteq> CHR ''('') r)"
  shows "search (parenField (CHR ''('' # tag)) ((CHR ''('' # tag) @ v @ rest)
           = (if v = [] then None else Some v)"
proof -
  let ?m = "parenField (CHR ''('' # tag)"
  have tw: "takeWhile (\<lambda>c. c \<noteq> CHR ''('') (v @ rest) = v"
    using assms(1,4) by (auto simp: takeWhile_all takeWhile_plain)
  show ?thesis
  proof (cases "v = []")
    case False
    with tw show ?thesis by (simp add: parenField_def startsWith_def)
  next
    case True
    with tw have "?m ((CHR ''('' # tag) @ v @ rest) = None"
      by (simp add: parenField_def startsWith_def)
    then have "search ?m ((CHR ''('' # tag) @ v @ rest) = search ?m (tag @ rest)"
      using True by simp
    also have "\<dots> = search ?m rest"
      using assms(3)
      by (intro search_skip_chars [where p = tag]) (simp_all add: parenField_None)
    also have "\<dots> = None"
    proof -
      from assms(4) consider "rest = []" | q r where "rest = (CHR ''('' # q) @ r" "length q = 3"
        "q \<noteq> tag" "list_all (\<lambda>c. c \<noteq> CHR ''('') q" "list_all (\<lambda>c. c \<noteq> CHR ''('') r"
        by blast
      then show ?thesis
      proof cases
        case 1
        then show ?thesis by (simp add: parenField_None startsWith_def)
      next
        case 2
        have "search ?m ((CHR ''('' # q) @ r) = search ?m r"
          using 2 assms(2)
          by (intro search_skip_tag [where p = tag]) (simp_all add: parenField_None)
        also have "\<dots> = search ?m (r @ [])" by simp
        also have "\<dots> = search ?m []"
          using 2(5)
          by (intro search_skip_chars [where p = tag]) (simp_all add: parenField_None)
        also have "\<dots> = None" by (simp add: parenField_None startsWith_def)
        finally show ?thesis using 2(1) by simp
      qed
    qed
    finally show ?thesis using True by simp
  qed
qed

lemma paren_batch:
  assumes "list_all isDigit g" and "list_all isDigit e"
    and "list_all plainChar B" and "list_all plainChar S"
  shows "search (parenField ''(10)'') (''(01)'' @ g @ ''(17)'' @ e @ ''(10)'' @ B @ ''(21)'' @ S)
           = (if B = [] then None else Some B)"
proof -
  let ?m = "parenField ''(10)''"
  let ?r3 = "''(10)'' @ B @ ''(21)'' @ S"
  have "search ?m ((CHR ''('' # ''01)'') @ g @ ''(17)'' @ e @ ?r3) = search ?m (g @ ''(17)'' @ e @ ?r3)"
    by (rule search_skip_tag [where p = "''10)''"]) (simp_all add: parenField_None)
  also have "\<dots> = search ?m ((CHR ''('' # ''17)'') @ e @ ?r3)"
    using assms(1)
    by (intro search_skip_chars [where p = "''10)''"]) (simp_all add: parenField_None digits_no_paren)
  also have "\<dots> = search ?m (e @ ?r3)"
    by (rule search_skip_tag [where p = "''10)''"]) (simp_all add: parenField_None)
  also have "\<dots> = search ?m ((CHR ''('' # ''10)'') @ B @ (''(21)'' @ S))"
    using assms(2)
    by (intro search_skip_chars [where p = "''10)''"]) (simp_all add: parenField_None digits_no_paren)
  also have "\<dots> = (if B = [] then None else Some B)"
  proof (rule paren_var_here)
    show "''(21)'' @ S = [] \<or> (\<exists>q r. ''(21)'' @ S = (CHR ''('' # q) @ r \<and> length q = 3 \<and> q \<noteq> ''10)''
            \<and> list_all (\<lambda>c. c \<noteq> CHR ''('') q \<and> list_all (\<lambda>c. c \<noteq> CHR ''('') r)"
      using plain_no_paren [OF assms(4)]
      by (intro disjI2 exI [where x = "''21)''"] exI [where x = S]) simp
  qed (simp_all add: plain_no_paren assms)
  finally show ?thesis by simp
qed

lemma paren_serial:
  assumes "list_all isDigit g" and "list_all isDigit e"
    and "list_all plainChar B" and "list_all plainChar S"
  shows "search (parenField ''(21)'') (''(01)'' @ g @ ''(17)'' @ e @ ''(10)'' @ B @ ''(21)'' @ S)
           = (if S = [] then None else Some S)"
proof -
  let ?m = "parenField ''(21)''"
  let ?r4 = "''(21)'' @ S"
  have "search ?m ((CHR ''('' # ''01)'') @ g @ ''(17)'' @ e @ ''(10)'' @ B @ ?r4)
          = search ?m (g @ ''(17)'' @ e @ ''(10)'' @ B @ ?r4)"
    by (rule search_skip_tag [where p = "''21)''"]) (simp_all add: parenField_None)
  also have "\<dots> = search ?m ((CHR ''('' # ''17)'') @ e @ ''(10)'' @ B @ ?r4)"
    using assms(1)
    by (intro search_skip_chars [where p = "''21)''"]) (simp_all add: parenField_None digits_no_paren)
  also have "\<dots> = search ?m (e @ ''(10)'' @ B @ ?r4)"
    by (rule search_skip_tag [where p = "''21)''"]) (simp_all add: parenField_None)
  also have "\<dots> = search ?m ((CHR ''('' # ''10)'') @ B @ ?r4)"
    using assms(2)
    by (intro search_skip_chars [where p = "''21)''"]) (simp_all add: parenField_None digits_no_paren)
  also have "\<dots> = search ?m (B @ ?r4)"
    by (rule search_skip_tag [where p = "''21)''"]) (simp_all add: parenField_None)
  also have "\<dots> = search ?m ?r4"
    using assms(3)
    by (intro search_skip_chars [where p = "''21)''"]) (simp_all add: parenField_None plain_no_paren)
  also have "\<dots> = search ?m ((CHR ''('' # ''21)'') @ S @ [])"
    by simp
  also have "\<dots> = (if S = [] then None else Some S)"
    by (rule paren_var_here) (simp_all add: plain_no_paren assms)
  finally show ?thesis by simp
qed

section \<open>The input after its clean-up\<close>

lemma trim_keep:
  assumes "p \<noteq> []" and "\<not> isSpace (hd p)" and "\<not> isSpace (last p)"
  shows "trim (p @ s) = p @ trimEnd s"
proof -
  from assms(1,2) have a: "dropWhile isSpace (p @ s) = p @ s"
    by (cases p) simp_all
  from assms(1) obtain q x where p: "p = q @ [x]"
    by (cases p rule: rev_cases) auto
  with assms(3) have x: "\<not> isSpace x" by simp
  have "dropWhile isSpace (rev (p @ s)) = dropWhile isSpace (rev s) @ x # rev q"
    unfolding p using x by (simp add: dropWhile_append3)
  then have "rev (dropWhile isSpace (rev (p @ s))) = p @ trimEnd s"
    by (simp add: trimEnd_def p)
  with a show ?thesis by (simp add: trim_def)
qed

lemma stripCtl_append: "stripCtl (x @ y) = stripCtl x @ stripCtl y"
  by (simp add: stripCtl_def)

lemma stripCtl_digits: "list_all isDigit g \<Longrightarrow> stripCtl g = g"
  by (induction g) (auto simp: stripCtl_def isDigit_def)

lemma stripCtl_Nil: "stripCtl [] = []"
  by (simp add: stripCtl_def)

lemma stripCtl_Cons:
  "stripCtl (c # cs) = (if charCode c \<in> {13, 10, 9} then stripCtl cs else c # stripCtl cs)"
  by (simp add: stripCtl_def)

lemma stripCtl_plain: "list_all plainChar v \<Longrightarrow> list_all plainChar (stripCtl v)"
  by (induction v) (auto simp: stripCtl_def)

lemma trimEnd_plain: "list_all plainChar v \<Longrightarrow> list_all plainChar (trimEnd v)"
proof -
  assume "list_all plainChar v"
  moreover have "set (trimEnd v) \<subseteq> set v"
    using set_dropWhileD [of _ isSpace "rev v"] by (auto simp: trimEnd_def)
  ultimately show ?thesis by (auto simp: list_all_iff)
qed

lemma str_includes_char: "str_includes s [c] = (c \<in> set s)"
  by (induction s) (auto simp: startsWith_def)

lemma plain_set: "list_all plainChar v \<Longrightarrow> CHR ''('' \<notin> set v"
  by (auto simp: list_all_iff plainChar_def)

lemma digits_set: "list_all isDigit v \<Longrightarrow> CHR ''('' \<notin> set v"
  by (auto simp: list_all_iff dest: digit_plain)

lemma GS_not_paren: "CHR ''('' \<noteq> GS"
  by (simp add: GS_neq charCode_def)

lemma code_parenthesized:
  assumes "list_all isDigit g" and "list_all isDigit e"
  shows "stripCtl (trim (parenthesized g e b s))
     = ''(01)'' @ g @ ''(17)'' @ e @ ''(10)'' @ stripCtl b @ ''(21)'' @ stripCtl (trimEnd s)"
proof -
  have "trim ((''(01)'' @ g @ ''(17)'' @ e @ ''(10)'' @ b @ ''(21)'') @ s)
      = (''(01)'' @ g @ ''(17)'' @ e @ ''(10)'' @ b @ ''(21)'') @ trimEnd s"
    by (rule trim_keep) (simp_all add: isSpace_def charCode_def)
  then show ?thesis
    using assms
    by (simp add: parenthesized_def stripCtl_append stripCtl_digits stripCtl_Cons stripCtl_Nil
          charCode_def)
qed

lemma stripCtl_seps: "stripCtl (replicate n GS) = replicate n GS"
  by (induction n) (simp_all add: stripCtl_def GS_code)

lemma code_positional:
  assumes "list_all isDigit g" and "list_all isDigit e"
  shows "stripCtl (trim (positional i j k g e b s))
     = ''01'' @ g @ replicate i GS @ ''17'' @ e @ replicate j GS @ ''10'' @ stripCtl b
         @ replicate (Suc k) GS @ ''21'' @ stripCtl (trimEnd s)"
proof -
  have "trim ((''01'' @ g @ replicate i GS @ ''17'' @ e @ replicate j GS @ ''10'' @ b
                 @ replicate (Suc k) GS @ ''21'') @ s)
      = (''01'' @ g @ replicate i GS @ ''17'' @ e @ replicate j GS @ ''10'' @ b
                 @ replicate (Suc k) GS @ ''21'') @ trimEnd s"
    by (rule trim_keep) (simp_all add: isSpace_def charCode_def)
  then have "trim (positional i j k g e b s)
      = ''01'' @ g @ replicate i GS @ ''17'' @ e @ replicate j GS @ ''10'' @ b
                 @ replicate (Suc k) GS @ ''21'' @ trimEnd s"
    by (simp add: positional_def)
  then show ?thesis
    using assms
    by (simp only: stripCtl_append stripCtl_digits stripCtl_seps)
       (simp add: stripCtl_Cons stripCtl_Nil charCode_def)
qed

lemma clean_Nil: "clean [] = []"
  by (simp add: clean_def stripNonPrintable_def trim_def substring_def)

lemma filter_printable_stripCtl: "stripNonPrintable (stripCtl v) = stripNonPrintable v"
  by (induction v) (auto simp: stripNonPrintable_def stripCtl_def isPrintable_def)

lemma clean_stripCtl: "clean (stripCtl v) = clean v"
  by (simp add: clean_def filter_printable_stripCtl)

lemma trim_append_spaces:
  assumes "list_all isSpace y"
  shows "trim (x @ y) = trim x"
proof (cases "list_all isSpace x")
  case True
  with assms have a: "dropWhile isSpace (x @ y) = []" and b: "dropWhile isSpace x = []"
    by (auto simp: list_all_iff)
  show ?thesis by (simp only: trim_def a b)
next
  case False
  then obtain c where c: "c \<in> set x" "\<not> isSpace c" by (auto simp: list_all_iff)
  then have "dropWhile isSpace (x @ y) = dropWhile isSpace x @ y"
    by (rule dropWhile_append1)
  then have "rev (dropWhile isSpace (x @ y)) = rev y @ rev (dropWhile isSpace x)" by simp
  moreover have "dropWhile isSpace (rev y @ rev (dropWhile isSpace x))
      = dropWhile isSpace (rev (dropWhile isSpace x))"
    using assms by (intro dropWhile_append2) (auto simp: list_all_iff)
  ultimately show ?thesis by (simp add: trim_def)
qed

lemma trimEnd_decomp: "\<exists>w. v = trimEnd v @ w \<and> list_all isSpace w"
proof (intro exI conjI)
  have "v = rev (takeWhile isSpace (rev v) @ dropWhile isSpace (rev v))" by simp
  also have "\<dots> = rev (dropWhile isSpace (rev v)) @ rev (takeWhile isSpace (rev v))"
    by (rule rev_append)
  finally show "v = trimEnd v @ rev (takeWhile isSpace (rev v))"
    unfolding trimEnd_def .
  show "list_all isSpace (rev (takeWhile isSpace (rev v)))"
    by (auto simp: list_all_iff dest: set_takeWhileD)
qed

lemma clean_trimEnd: "clean (trimEnd v) = clean v"
proof -
  obtain w where w: "v = trimEnd v @ w" "list_all isSpace w"
    using trimEnd_decomp by blast
  have "stripNonPrintable v = stripNonPrintable (trimEnd v) @ stripNonPrintable w"
    by (subst w(1)) (simp add: stripNonPrintable_def)
  moreover have "list_all isSpace (stripNonPrintable w)"
    using w(2) by (auto simp: list_all_iff stripNonPrintable_def)
  ultimately have "trim (stripNonPrintable v) = trim (stripNonPrintable (trimEnd v))"
    by (simp add: trim_append_spaces)
  then show ?thesis by (simp add: clean_def)
qed

section \<open>Plain codes\<close>

lemma GS1_parse_plain:
  assumes "\<not> isGS1 (GS1_parse b)"
  shows "gtin (GS1_parse b) =
     (if 8 \<le> length (stripNonDigits b) \<and> length (stripNonDigits b) \<le> 14
      then padStart (stripNonDigits b) 14 CHR ''0'' else [])"
proof (cases "b = []")
  case True
  then show ?thesis by (simp add: GS1_parse_def stripNonDigits_def)
next
  case False
  let ?code = "stripCtl (trim b)"
  have d: "stripNonDigits ?code = stripNonDigits b"
    by (simp add: stripNonDigits_stripCtl stripNonDigits_trim)
  show ?thesis
  proof (cases "\<not> str_includes ?code ''('' \<and> fixedField ''01'' 14 ?code = None")
    case True
    with False d show ?thesis by (simp add: GS1_parse_def Let_def)
  next
    case no: False
    have "isGS1 (GS1_parse b)"
    proof (cases "str_includes ?code ''(''")
      case True
      with False show ?thesis
        by (simp add: GS1_parse_def Let_def GS1_expiry_def split: option.splits)
    next
      case nop: False
      with False no show ?thesis
        by (simp add: GS1_parse_def Let_def scan_isGS1)
    qed
    with assms show ?thesis by simp
  qed
qed

lemma parse_simple:
  assumes "detectFormat b = f" and "f = GTIN14 \<or> f = EAN13 \<or> f = LEGACY12 \<or> f = EAN8"
  shows "parse b = parseSimple b f"
proof -
  from assms have "stripNonDigits b \<noteq> []"
    by (auto simp: detectFormat_def Let_def split: if_splits)
  then have "length (trim b) \<noteq> 0" using trim_nonempty by simp
  with assms show ?thesis by (auto simp: parse_def)
qed

section \<open>Reading a date token\<close>

lemma parseInt_two_digits:
  assumes "isDigit a" and "isDigit b"
  shows "parseInt [a, b] = Num (decVal [a, b])"
  using assms digit_not_space [of a] digit_not_sign [of a] digit_not_sign [of b]
  by (simp add: parseInt_def parseDigits_def startsWith_def)

lemma six_chars:
  assumes "length t = 6"
  obtains a b c d e f where "t = [a, b, c, d, e, f]"
  using assms by (auto simp: length_Suc_conv eval_nat_numeral)

lemma expiry_numbers:
  assumes "length t = 6" and "list_all isDigit t"
  shows "expiryYear t = Num (2000 + decVal (take 2 t))"
    and "expiryMonth t = Num (decVal (take 2 (drop 2 t)))"
    and "expiryDay t =
           Num (if decVal (drop 4 t) = 0
                then daysInMonth (2000 + decVal (take 2 t) + (decVal (take 2 (drop 2 t)) - 1) div 12)
                       ((decVal (take 2 (drop 2 t)) - 1) mod 12 + 1)
                else decVal (drop 4 t))"
proof -
  from assms(1) obtain a b c d e f where t: "t = [a, b, c, d, e, f]" by (rule six_chars)
  with assms(2) have dg: "isDigit a" "isDigit b" "isDigit c" "isDigit d" "isDigit e" "isDigit f"
    by simp_all
  have yy: "parseInt [a, b] = Num (decVal [a, b])" using dg by (simp add: parseInt_two_digits)
  have mm: "parseInt [c, d] = Num (decVal [c, d])" using dg by (simp add: parseInt_two_digits)
  have dd: "parseInt [e, f] = Num (decVal [e, f])" using dg by (simp add: parseInt_two_digits)
  have nonneg: "0 \<le> decVal [a, b]"
    using dg by (simp add: decVal_def digitVal_def isDigit_def)
  show y: "expiryYear t = Num (2000 + decVal (take 2 t))"
    by (simp add: expiryYear_def t yy numAdd_def)
  show m: "expiryMonth t = Num (decVal (take 2 (drop 2 t)))"
    by (simp add: expiryMonth_def t mm)
  have big: "\<not> (2000 + decVal [a, b] \<le> 99)" using nonneg by simp
  show "expiryDay t =
           Num (if decVal (drop 4 t) = 0
                then daysInMonth (2000 + decVal (take 2 t) + (decVal (take 2 (drop 2 t)) - 1) div 12)
                       ((decVal (take 2 (drop 2 t)) - 1) mod 12 + 1)
                else decVal (drop 4 t))"
    unfolding expiryDay_def y m
    using big by (simp add: t dd lastDayOf_def Let_def)
qed

lemma carry_in_range:
  "1 \<le> (m::int) \<Longrightarrow> m \<le> 12 \<Longrightarrow> y + (m - 1) div 12 = y \<and> (m - 1) mod 12 + 1 = m"
  by simp

section \<open>The master index\<close>

lemma register_index:
  "masterIndex (register it S k) k' =
     (case masterIndex S k' of Some v \<Rightarrow> Some v
      | None \<Rightarrow> if k' = k then Some (name it) else None)"
  by (simp add: register_def Let_def split: option.splits)

lemma register_rms:
  "masterRMS (register it S k) k' =
     (case masterRMS S k' of Some v \<Rightarrow> Some v
      | None \<Rightarrow> if k' = k \<and> rms it \<noteq> [] then Some (rms it) else None)"
  by (simp add: register_def Let_def split: option.splits)

lemma foldl_register_index:
  "masterIndex (foldl (register it) S ks) k =
     (case masterIndex S k of Some v \<Rightarrow> Some v
      | None \<Rightarrow> if k \<in> set ks then Some (name it) else None)"
  by (induction ks arbitrary: S) (auto simp: register_index split: option.splits)

lemma foldl_register_rms:
  "masterRMS (foldl (register it) S ks) k =
     (case masterRMS S k of Some v \<Rightarrow> Some v
      | None \<Rightarrow> if k \<in> set ks \<and> rms it \<noteq> [] then Some (rms it) else None)"
  by (induction ks arbitrary: S) (auto simp: register_rms split: option.splits)

lemma buildLoop_index:
  "masterIndex (buildLoop data S) k =
     (case masterIndex S k of Some v \<Rightarrow> Some v
      | None \<Rightarrow> map_option name (find (\<lambda>it. claimsKey it k) data))"
proof (induction data arbitrary: S)
  case Nil
  show ?case by (simp split: option.splits)
next
  case (Cons it its)
  show ?case
    by (simp add: Cons.IH Let_def claimsKey_def foldl_register_index split: option.splits)
qed

lemma buildLoop_rms:
  "masterRMS (buildLoop data S) k =
     (case masterRMS S k of Some v \<Rightarrow> Some v
      | None \<Rightarrow> map_option rms (find (\<lambda>it. claimsKey it k \<and> rms it \<noteq> []) data))"
proof (induction data arbitrary: S)
  case Nil
  show ?case by (simp split: option.splits)
next
  case (Cons it its)
  show ?case
    by (simp add: Cons.IH Let_def claimsKey_def foldl_register_rms split: option.splits)
qed

lemma slice_last_padStart:
  "8 \<le> length bc \<Longrightarrow> slice_last (padStart bc 14 c) 8 = slice_last bc 8"
  by (simp add: slice_last_def padStart_def)

lemma claimsKey_four:
  "claimsKey it k =
     (let bc = stripNonDigits (barcode it); g14 = padStart bc 14 CHR ''0''
      in 8 \<le> length bc
         \<and> (k = bc \<or> k = g14 \<or> (startsWith g14 ''0'' \<and> k = slice_from g14 1)
              \<or> k = slice_last g14 8))"
proof -
  let ?bc = "stripNonDigits (barcode it)"
  let ?g = "padStart ?bc 14 CHR ''0''"
  show ?thesis
  proof (cases "8 \<le> length ?bc")
    case False
    then show ?thesis by (auto simp: claimsKey_def Let_def)
  next
    case True
    then have ne: "?bc \<noteq> []" "?g \<noteq> []" "slice_from ?g 1 \<noteq> []" "slice_last ?bc 8 \<noteq> []"
      by (auto simp: padStart_def slice_from_def slice_last_def)
    from True have "\<not> length ?bc < 8" by simp
    with True ne show ?thesis
      unfolding claimsKey_def Let_def keysOf_def slice_last_padStart [OF True]
      by auto
  qed
qed

lemma find_general:
  assumes "length g = 14"
  shows "Master_find S g =
     (if masterIndex S g \<noteq> None then entryAt S g EXACT
      else if startsWith g ''0'' \<and> masterIndex S (slice_from g 1) \<noteq> None
        then entryAt S (slice_from g 1) PARTIAL
      else if masterIndex S (slice_last g 8) \<noteq> None then entryAt S (slice_last g 8) PARTIAL
      else notFound)"
proof -
  from assms have ne: "g \<noteq> []" "slice_from g 1 \<noteq> []" "slice_last g 8 \<noteq> []"
    and neq: "slice_from g 1 \<noteq> g" "slice_last g 8 \<noteq> g"
    by (auto simp: slice_from_def slice_last_def dest: arg_cong [where f = length])
  show ?thesis
  proof (cases "startsWith g ''0''")
    case True
    with ne neq show ?thesis
      by (cases "masterIndex S g"; cases "masterIndex S (slice_from g 1)";
          cases "masterIndex S (slice_last g 8)")
         (simp_all add: Master_find_def entryAt_def)
  next
    case False
    with ne neq show ?thesis
      by (cases "masterIndex S g"; cases "masterIndex S (slice_last g 8)")
         (simp_all add: Master_find_def entryAt_def)
  qed
qed

section \<open>The parenthesized example\<close>

text \<open>
  Claim C1. Parsing \<^verbatim>\<open>(01)00012345678905(17)260630(10)BATCH1(21)SER99\<close> gives the GTIN
  \<^verbatim>\<open>00012345678905\<close>, the raw expiry token \<^verbatim>\<open>260630\<close>, the expiry date 2026-06-30, the
  batch \<^verbatim>\<open>BATCH1\<close> and the serial \<^verbatim>\<open>SER99\<close>: in \<^verbatim>\<open>GS1.parse\<close> of app.js, and in the
  unified parser, which files the token under \<^verbatim>\<open>expiryRaw\<close> and the date under
  \<^verbatim>\<open>expiry\<close>.
\<close>

theorem parse_parenthesized_example:
  "GS1_parse ''(01)00012345678905(17)260630(10)BATCH1(21)SER99'' =
     \<lparr>raw = ''(01)00012345678905(17)260630(10)BATCH1(21)SER99'',
      gtin = ''00012345678905'', expiry = ''260630'', expiryISO = ''2026-06-30'',
      expiryDisplay = ''30/06/2026'', batch = ''BATCH1'', serial = ''SER99'', qty = 1,
      isGS1 = True\<rparr>
   \<and> parse ''(01)00012345678905(17)260630(10)BATCH1(21)SER99'' =
     emptyParsed\<lparr>p_format := Some GS1_PARENTHESIZED,
                  p_raw := Some ''(01)00012345678905(17)260630(10)BATCH1(21)SER99'',
                  p_gtin := Some ''00012345678905'', expiryRaw := Some ''260630'',
                  p_expiry := Some ''2026-06-30'', p_batch := Some ''BATCH1'',
                  p_serial := Some ''SER99''\<rparr>"
  by code_simp

section \<open>Positional against parenthesized\<close>

text \<open>
  Claim C2 says that the positional encoding of any GTIN, expiry, batch and serial parses to
  the same fields as their parenthesized encoding. It fails in two ways. The unified parser
  does not know the group separator: on the values of the example its positional parse
  finds no batch. And \<^verbatim>\<open>GS1.parse\<close> takes any string with an opening parenthesis for a
  parenthesized one: with the batch \<^verbatim>\<open>A(B\<close> its positional parse finds no GTIN, and its
  parenthesized parse cuts the batch at the parenthesis.
\<close>

theorem positional_differs:
  "p_batch (parse (positional 0 0 0 ''00012345678905'' ''260630'' ''BATCH1'' ''SER99'')) = None
   \<and> p_batch (parse (parenthesized ''00012345678905'' ''260630'' ''BATCH1'' ''SER99''))
       = Some ''BATCH1''
   \<and> gtin (GS1_parse (positional 0 0 0 ''00012345678905'' ''260630'' ''A(B'' ''SER99'')) = []
   \<and> gtin (GS1_parse (parenthesized ''00012345678905'' ''260630'' ''A(B'' ''SER99''))
       = ''00012345678905''
   \<and> batch (GS1_parse (parenthesized ''00012345678905'' ''260630'' ''A(B'' ''SER99'')) = ''A''"
  by code_simp

text \<open>
  Claim C2, amended. In \<^verbatim>\<open>GS1.parse\<close> of app.js, for every GTIN of 14 digits, every expiry
  token of 6 digits, and every batch and serial without an opening parenthesis and without
  a group separator, the positional encoding, with at least one separator after the batch
  and any number of them after the GTIN and after the expiry token, parses to the result of
  the parenthesized encoding, the field \<^verbatim>\<open>raw\<close> apart: the GTIN and the token as given,
  the batch and the serial cleaned (printable characters only, trimmed, 20 at most).
\<close>

theorem positional_equals_parenthesized:
  assumes "length g = 14" and "list_all isDigit g" and "length e = 6" and "list_all isDigit e"
    and "list_all plainChar b" and "list_all plainChar s"
  shows "GS1_parse (positional i j k g e b s)
           = (GS1_parse (parenthesized g e b s))\<lparr>raw := positional i j k g e b s\<rparr>
    \<and> gtin (GS1_parse (positional i j k g e b s)) = g
    \<and> expiry (GS1_parse (positional i j k g e b s)) = e
    \<and> batch (GS1_parse (positional i j k g e b s)) = clean b
    \<and> serial (GS1_parse (positional i j k g e b s)) = clean s"
proof -
  let ?B = "stripCtl b" and ?S = "stripCtl (trimEnd s)"
  let ?cp = "''(01)'' @ g @ ''(17)'' @ e @ ''(10)'' @ ?B @ ''(21)'' @ ?S"
  let ?cn = "''01'' @ g @ replicate i GS @ ''17'' @ e @ replicate j GS @ ''10'' @ ?B
               @ replicate (Suc k) GS @ ''21'' @ ?S"
  let ?r0 = "\<lambda>i. \<lparr>raw = i, gtin = [], expiry = [], expiryISO = [], expiryDisplay = [],
                     batch = [], serial = [], qty = 1, isGS1 = True\<rparr>"
  have B: "list_all plainChar ?B" using assms(5) by (rule stripCtl_plain)
  have S: "list_all plainChar ?S" using assms(6) by (intro stripCtl_plain trimEnd_plain)
  have cB: "clean ?B = clean b" by (rule clean_stripCtl)
  have cS: "clean ?S = clean s" by (simp only: clean_stripCtl clean_trimEnd)
  have cp: "stripCtl (trim (parenthesized g e b s)) = ?cp"
    using assms(2,4) by (rule code_parenthesized)
  have cn: "stripCtl (trim (positional i j k g e b s)) = ?cn"
    using assms(2,4) by (rule code_positional)
  have hp: "str_includes ?cp ''(''" by (simp add: startsWith_def)
  have hn: "\<not> str_includes ?cn ''(''"
    using plain_set [OF B] plain_set [OF S] digits_set [OF assms(2)] digits_set [OF assms(4)]
      GS_not_paren
    by (simp add: str_includes_char)
  have raw1: "fixedField ''01'' 14 ?cn = Some g"
    using assms(1,2) by (simp add: fixedField_def startsWith_def)
  have ne: "parenthesized g e b s \<noteq> []" "positional i j k g e b s \<noteq> []"
    by (simp_all add: parenthesized_def positional_def)
  have s1: "search (fixedField ''(01)'' 14) ?cp = Some g"
    using assms(1,2) by (rule paren_gtin)
  have s2: "search (fixedField ''(17)'' 6) ?cp = Some e"
    using assms(2,3,4) by (rule paren_expiry)
  have s3: "search (parenField ''(10)'') ?cp = (if ?B = [] then None else Some ?B)"
    using assms(2,4) B S by (rule paren_batch)
  have s4: "search (parenField ''(21)'') ?cp = (if ?S = [] then None else Some ?S)"
    using assms(2,4) B S by (rule paren_serial)
  have e6: "GS1_expiry e r = r\<lparr>expiry := e,
        expiryISO := numString (expiryYear e) @ ''-'' @ pad2 (expiryMonth e) @ ''-''
                       @ pad2 (expiryDay e),
        expiryDisplay := pad2 (expiryDay e) @ ''/'' @ pad2 (expiryMonth e) @ ''/''
                           @ numString (expiryYear e)\<rparr>"
    for r using assms(3) by (simp add: GS1_expiry_def Let_def)
  have P: "GS1_parse (parenthesized g e b s)
      = (GS1_expiry e ((?r0 (parenthesized g e b s))\<lparr>gtin := g\<rparr>))
          \<lparr>batch := clean ?B, serial := clean ?S\<rparr>"
    using ne(1) hp
    by (simp add: GS1_parse_def cp s1 s2 s3 s4 Let_def e6 clean_Nil del: append.simps)
  have "scan ?cn 0 (?r0 (positional i j k g e b s))
      = (GS1_expiry e ((?r0 (positional i j k g e b s))\<lparr>gtin := g\<rparr>))
          \<lparr>batch := clean ?B, serial := clean ?S\<rparr>"
    using assms(1,3) B S by (rule scan_positional)
  then have N: "GS1_parse (positional i j k g e b s)
      = (GS1_expiry e ((?r0 (positional i j k g e b s))\<lparr>gtin := g\<rparr>))
          \<lparr>batch := clean ?B, serial := clean ?S\<rparr>"
    using ne(2) hn
    by (simp add: GS1_parse_def cn raw1 Let_def del: append.simps replicate.simps)
  show ?thesis
    unfolding P N cB cS by (simp add: e6)
qed

theorem positional_equals_parenthesized_witness:
  "length ''00012345678905'' = 14 \<and> list_all isDigit ''00012345678905''
   \<and> length ''260630'' = 6 \<and> list_all isDigit ''260630''
   \<and> list_all plainChar ''BATCH1'' \<and> list_all plainChar ''SER99''
   \<and> GS1_parse (positional 0 0 0 ''00012345678905'' ''260630'' ''BATCH1'' ''SER99'')
       = (GS1_parse (parenthesized ''00012345678905'' ''260630'' ''BATCH1'' ''SER99''))
           \<lparr>raw := positional 0 0 0 ''00012345678905'' ''260630'' ''BATCH1'' ''SER99''\<rparr>
   \<and> GS1_parse (positional 1 1 0 ''00012345678905'' ''260630'' ''BATCH1'' ''SER99'')
       = (GS1_parse (parenthesized ''00012345678905'' ''260630'' ''BATCH1'' ''SER99''))
           \<lparr>raw := positional 1 1 0 ''00012345678905'' ''260630'' ''BATCH1'' ''SER99''\<rparr>
   \<and> gtin (GS1_parse (positional 0 0 0 ''00012345678905'' ''260630'' ''BATCH1'' ''SER99''))
       = ''00012345678905''
   \<and> batch (GS1_parse (positional 0 0 0 ''00012345678905'' ''260630'' ''BATCH1'' ''SER99''))
       = ''BATCH1''
   \<and> serial (GS1_parse (positional 0 0 0 ''00012345678905'' ''260630'' ''BATCH1'' ''SER99''))
       = ''SER99''"
proof -
  have h1: "length ''00012345678905'' = 14" by simp
  have h2: "list_all isDigit ''00012345678905''" by code_simp
  have h3: "length ''260630'' = 6" by simp
  have h4: "list_all isDigit ''260630''" by code_simp
  have h5: "list_all plainChar ''BATCH1''" by code_simp
  have h6: "list_all plainChar ''SER99''" by code_simp
  have cb: "clean ''BATCH1'' = ''BATCH1''" by code_simp
  have cs: "clean ''SER99'' = ''SER99''" by code_simp
  note t = positional_equals_parenthesized [OF h1 h2 h3 h4 h5 h6]
  from t [of 0 0 0] have
    "batch (GS1_parse (positional 0 0 0 ''00012345678905'' ''260630'' ''BATCH1'' ''SER99''))
       = clean ''BATCH1''"
    "serial (GS1_parse (positional 0 0 0 ''00012345678905'' ''260630'' ''BATCH1'' ''SER99''))
       = clean ''SER99''"
    by blast+
  then have
    "batch (GS1_parse (positional 0 0 0 ''00012345678905'' ''260630'' ''BATCH1'' ''SER99''))
       = ''BATCH1''"
    "serial (GS1_parse (positional 0 0 0 ''00012345678905'' ''260630'' ''BATCH1'' ''SER99''))
       = ''SER99''"
    by (simp_all only: cb cs)
  with t [of 0 0 0] t [of 1 1 0] h1 h2 h3 h4 h5 h6 show ?thesis by blast
qed

section \<open>The date of a token\<close>

text \<open>
  Claim C3 says that the conversion of a date token is rejected, and the date left absent,
  when the month is not between 1 and 12. Neither parser rejects anything: for the token
  \<^verbatim>\<open>261300\<close> \<^verbatim>\<open>GS1.parse\<close> stores the date \<^verbatim>\<open>2026-13-31\<close>, and for the token
  \<^verbatim>\<open>261315\<close> the unified parser stores the date \<^verbatim>\<open>2026-13-15\<close>.
\<close>

theorem month_13_not_rejected:
  "expiry (GS1_parse ''(17)261300'') = ''261300''
   \<and> expiryISO (GS1_parse ''(17)261300'') = ''2026-13-31''
   \<and> p_expiry (parse ''(01)00012345678905(17)261315'') = Some ''2026-13-15''"
  by code_simp

text \<open>
  Claim C3, amended. For every token \<open>t\<close> of six digits YYMMDD, \<^verbatim>\<open>GS1._expiry\<close> stores the
  token and the date of year 2000 + YY, month MM and day DD, except that day 00 gives the
  last day of month MM when MM is between 1 and 12; for another month the date is stored all
  the same (with day 00, the day is the last day of the month that \<^verbatim>\<open>Date\<close> carries MM
  to). The date is never left absent. For every such token whose day is not 00,
  \<^verbatim>\<open>formatExpiry\<close> of the unified parser gives the date of year 20YY, month MM and day DD,
  whatever the month.
\<close>

theorem expiry_conversion:
  assumes "length t = 6" and "list_all isDigit t"
  shows "expiry (GS1_expiry t r) = t
    \<and> expiryISO (GS1_expiry t r) =
        isoDate (2000 + decVal (take 2 t)) (decVal (take 2 (drop 2 t)))
          (if decVal (drop 4 t) = 0
           then daysInMonth (2000 + decVal (take 2 t) + (decVal (take 2 (drop 2 t)) - 1) div 12)
                  ((decVal (take 2 (drop 2 t)) - 1) mod 12 + 1)
           else decVal (drop 4 t))
    \<and> (1 \<le> decVal (take 2 (drop 2 t)) \<and> decVal (take 2 (drop 2 t)) \<le> 12 \<longrightarrow>
         expiryISO (GS1_expiry t r) =
           isoDate (2000 + decVal (take 2 t)) (decVal (take 2 (drop 2 t)))
             (if decVal (drop 4 t) = 0
              then daysInMonth (2000 + decVal (take 2 t)) (decVal (take 2 (drop 2 t)))
              else decVal (drop 4 t)))
    \<and> expiryISO (GS1_expiry t r) \<noteq> []
    \<and> (decVal (drop 4 t) \<noteq> 0 \<longrightarrow>
         formatExpiry t
           = Some (''20'' @ take 2 t @ ''-'' @ take 2 (drop 2 t) @ ''-'' @ drop 4 t))"
proof -
  note n = expiry_numbers [OF assms]
  have iso: "expiryISO (GS1_expiry t r) =
        isoDate (2000 + decVal (take 2 t)) (decVal (take 2 (drop 2 t)))
          (if decVal (drop 4 t) = 0
           then daysInMonth (2000 + decVal (take 2 t) + (decVal (take 2 (drop 2 t)) - 1) div 12)
                  ((decVal (take 2 (drop 2 t)) - 1) mod 12 + 1)
           else decVal (drop 4 t))"
    using assms(1) by (simp add: GS1_expiry_def Let_def n isoDate_def)
  have e: "expiry (GS1_expiry t r) = t"
    using assms(1) by (simp add: GS1_expiry_def Let_def)
  have ne: "expiryISO (GS1_expiry t r) \<noteq> []"
    unfolding iso by (simp add: isoDate_def)
  have f: "formatExpiry t = Some (''20'' @ take 2 t @ ''-'' @ take 2 (drop 2 t) @ ''-'' @ drop 4 t)"
    using assms(1) by (simp add: formatExpiry_def substring_def)
  have r: "1 \<le> decVal (take 2 (drop 2 t)) \<and> decVal (take 2 (drop 2 t)) \<le> 12 \<longrightarrow>
         expiryISO (GS1_expiry t r) =
           isoDate (2000 + decVal (take 2 t)) (decVal (take 2 (drop 2 t)))
             (if decVal (drop 4 t) = 0
              then daysInMonth (2000 + decVal (take 2 t)) (decVal (take 2 (drop 2 t)))
              else decVal (drop 4 t))"
    unfolding iso using carry_in_range by simp
  from e iso r ne f show ?thesis by blast
qed

theorem expiry_conversion_witness:
  "length ''260600'' = 6 \<and> list_all isDigit ''260600''
   \<and> 1 \<le> decVal (take 2 (drop 2 ''260600'')) \<and> decVal (take 2 (drop 2 ''260600'')) \<le> 12
   \<and> (\<forall>r. expiryISO (GS1_expiry ''260600'' r) = ''2026-06-30'')
   \<and> length ''260630'' = 6 \<and> list_all isDigit ''260630''
   \<and> decVal (drop 4 ''260630'') \<noteq> 0
   \<and> formatExpiry ''260630'' = Some ''2026-06-30''"
proof -
  have h1: "length ''260600'' = 6" by simp
  have h2: "list_all isDigit ''260600''" by code_simp
  have m: "1 \<le> decVal (take 2 (drop 2 ''260600'')) \<and> decVal (take 2 (drop 2 ''260600'')) \<le> 12"
    by code_simp
  have v: "isoDate (2000 + decVal (take 2 ''260600'')) (decVal (take 2 (drop 2 ''260600'')))
             (if decVal (drop 4 ''260600'') = 0
              then daysInMonth (2000 + decVal (take 2 ''260600''))
                     (decVal (take 2 (drop 2 ''260600'')))
              else decVal (drop 4 ''260600'')) = ''2026-06-30''"
    by code_simp
  have k1: "length ''260630'' = 6" by simp
  have k2: "list_all isDigit ''260630''" by code_simp
  have d: "decVal (drop 4 ''260630'') \<noteq> 0" by code_simp
  have f: "''20'' @ take 2 ''260630'' @ ''-'' @ take 2 (drop 2 ''260630'') @ ''-''
             @ drop 4 ''260630'' = ''2026-06-30''"
    by simp
  have "expiryISO (GS1_expiry ''260600'' r) = ''2026-06-30''" for r
  proof -
    from expiry_conversion [OF h1 h2, of r] m
    have "expiryISO (GS1_expiry ''260600'' r) =
        isoDate (2000 + decVal (take 2 ''260600'')) (decVal (take 2 (drop 2 ''260600'')))
          (if decVal (drop 4 ''260600'') = 0
           then daysInMonth (2000 + decVal (take 2 ''260600''))
                  (decVal (take 2 (drop 2 ''260600'')))
           else decVal (drop 4 ''260600''))"
      by blast
    then show ?thesis by (simp only: v)
  qed
  moreover have "formatExpiry ''260630'' = Some ''2026-06-30''"
  proof -
    from expiry_conversion [OF k1 k2] d
    have "formatExpiry ''260630'' = Some (''20'' @ take 2 ''260630'' @ ''-''
            @ take 2 (drop 2 ''260630'') @ ''-'' @ drop 4 ''260630'')"
      by blast
    then show ?thesis by (simp only: f)
  qed
  ultimately show ?thesis using h1 h2 m k1 k2 d by blast
qed

section \<open>Detecting the positional format\<close>

text \<open>
  Claim C4 says that a string is classified as positional GS1 only if one of the tokens 17,
  21, 10 occurs in the remainder after the GTIN body, and that a string of 14 digits and at
  most 16 characters is classified GTIN14. \<^verbatim>\<open>detectFormat\<close> looks for the tokens in the
  whole string: \<^verbatim>\<open>01000000000000009\<close> is positional GS1 by the \<^verbatim>\<open>10\<close> at its second
  character, while its remainder is \<^verbatim>\<open>9\<close>. And \<^verbatim>\<open>01(01)1234567890\<close>, 16 characters with 14
  digits, is parenthesized GS1.
\<close>

theorem token_outside_remainder:
  "detectFormat ''01000000000000009'' = GS1_FULL
   \<and> slice_from ''01000000000000009'' 16 = ''9''
   \<and> \<not> (str_includes ''9'' ''17'' \<or> str_includes ''9'' ''21'' \<or> str_includes ''9'' ''10'')
   \<and> length ''01(01)1234567890'' = 16 \<and> length (stripNonDigits ''01(01)1234567890'') = 14
   \<and> startsWith ''01(01)1234567890'' ''01''
   \<and> detectFormat ''01(01)1234567890'' = GS1_PARENTHESIZED"
  by code_simp

text \<open>
  Claim C4, amended. \<^verbatim>\<open>detectFormat\<close> classifies a string as positional GS1 exactly when it
  does not contain \<^verbatim>\<open>(01)\<close>, starts with \<^verbatim>\<open>01\<close>, is longer than 16 characters and contains
  one of the tokens 17, 21, 10 anywhere. Every string of at most 16 characters that does not
  contain \<^verbatim>\<open>(01)\<close> and has 14 digits is classified GTIN14, whether it starts with \<^verbatim>\<open>01\<close>
  or not.
\<close>

theorem detectFormat_positional:
  "(detectFormat b = GS1_FULL) =
     (\<not> str_includes b ''(01)'' \<and> startsWith b ''01'' \<and> 16 < length b
      \<and> (str_includes b ''17'' \<or> str_includes b ''21'' \<or> str_includes b ''10''))
   \<and> (\<not> str_includes b ''(01)'' \<and> length b \<le> 16 \<and> length (stripNonDigits b) = 14
        \<longrightarrow> detectFormat b = GTIN14)"
  by (simp add: detectFormat_def Let_def)

theorem detectFormat_positional_witness:
  "\<not> str_includes ''01234567890123'' ''(01)'' \<and> length ''01234567890123'' \<le> 16
   \<and> length (stripNonDigits ''01234567890123'') = 14
   \<and> startsWith ''01234567890123'' ''01''
   \<and> detectFormat ''01234567890123'' = GTIN14"
proof -
  have h: "\<not> str_includes ''01234567890123'' ''(01)'' \<and> length ''01234567890123'' \<le> 16
      \<and> length (stripNonDigits ''01234567890123'') = 14"
    by code_simp
  have s: "startsWith ''01234567890123'' ''01''" by code_simp
  from detectFormat_positional [of "''01234567890123''"] h s show ?thesis by blast
qed

section \<open>Looking a GTIN up\<close>

text \<open>
  Claim C5. For every index (so for every one built from a catalogue) and every GTIN \<open>g\<close> of
  14 characters, \<^verbatim>\<open>Master.find\<close> answers EXACT exactly when \<open>g\<close> is a key of the index;
  otherwise PARTIAL, with the entry of \<open>g\<close> without its leading zero when \<open>g\<close> starts with a
  zero and that is a key, else with the entry of the last 8 digits of \<open>g\<close> when they are a
  key; otherwise NONE, with no name. For the index built from the one entry with the bar
  code \<^verbatim>\<open>6291107439358\<close>: its form padded to 14 digits is found EXACT, its last 8 digits,
  in the normalized form of 14 digits that \<^verbatim>\<open>GS1.parse\<close> hands to \<^verbatim>\<open>Master.find\<close>, are
  found PARTIAL, and \<^verbatim>\<open>00012345678905\<close> is not found.
\<close>

theorem find_confidence:
  assumes "length g = 14"
  shows "Master_find (Master_build data) g =
     (if masterIndex (Master_build data) g \<noteq> None then entryAt (Master_build data) g EXACT
      else if startsWith g ''0'' \<and> masterIndex (Master_build data) (slice_from g 1) \<noteq> None
        then entryAt (Master_build data) (slice_from g 1) PARTIAL
      else if masterIndex (Master_build data) (slice_last g 8) \<noteq> None
        then entryAt (Master_build data) (slice_last g 8) PARTIAL
      else notFound)
   \<and> Master_find (Master_build [\<lparr>barcode = ''6291107439358'', name = ''Zyrtec'', rms = []\<rparr>])
        (padStart ''6291107439358'' 14 CHR ''0'')
       = \<lparr>f_name = ''Zyrtec'', f_rms = [], how = EXACT\<rparr>
   \<and> Master_find (Master_build [\<lparr>barcode = ''6291107439358'', name = ''Zyrtec'', rms = []\<rparr>])
        (padStart (slice_last ''6291107439358'' 8) 14 CHR ''0'')
       = \<lparr>f_name = ''Zyrtec'', f_rms = [], how = PARTIAL\<rparr>
   \<and> Master_find (Master_build [\<lparr>barcode = ''6291107439358'', name = ''Zyrtec'', rms = []\<rparr>])
        ''00012345678905''
       = \<lparr>f_name = [], f_rms = [], how = NONE\<rparr>"
proof -
  have a: "Master_find (Master_build [\<lparr>barcode = ''6291107439358'', name = ''Zyrtec'', rms = []\<rparr>])
        (padStart ''6291107439358'' 14 CHR ''0'')
       = \<lparr>f_name = ''Zyrtec'', f_rms = [], how = EXACT\<rparr>"
    by code_simp
  have b: "Master_find (Master_build [\<lparr>barcode = ''6291107439358'', name = ''Zyrtec'', rms = []\<rparr>])
        (padStart (slice_last ''6291107439358'' 8) 14 CHR ''0'')
       = \<lparr>f_name = ''Zyrtec'', f_rms = [], how = PARTIAL\<rparr>"
    by code_simp
  have c: "Master_find (Master_build [\<lparr>barcode = ''6291107439358'', name = ''Zyrtec'', rms = []\<rparr>])
        ''00012345678905''
       = \<lparr>f_name = [], f_rms = [], how = NONE\<rparr>"
    by code_simp
  from find_general [OF assms, of "Master_build data"] a b c show ?thesis by blast
qed

theorem find_confidence_witness:
  "length ''06291107439358'' = 14
   \<and> Master_find (Master_build [\<lparr>barcode = ''6291107439358'', name = ''Zyrtec'', rms = []\<rparr>])
        ''06291107439358''
       = entryAt (Master_build [\<lparr>barcode = ''6291107439358'', name = ''Zyrtec'', rms = []\<rparr>])
           ''06291107439358'' EXACT"
proof -
  have h: "length ''06291107439358'' = 14" by simp
  have k: "masterIndex (Master_build [\<lparr>barcode = ''6291107439358'', name = ''Zyrtec'', rms = []\<rparr>])
             ''06291107439358'' \<noteq> None"
    by code_simp
  from find_confidence [OF h, of "[\<lparr>barcode = ''6291107439358'', name = ''Zyrtec'', rms = []\<rparr>]"]
  have "Master_find (Master_build [\<lparr>barcode = ''6291107439358'', name = ''Zyrtec'', rms = []\<rparr>])
          ''06291107439358''
        = (if masterIndex (Master_build [\<lparr>barcode = ''6291107439358'', name = ''Zyrtec'', rms = []\<rparr>])
                ''06291107439358'' \<noteq> None
           then entryAt (Master_build [\<lparr>barcode = ''6291107439358'', name = ''Zyrtec'', rms = []\<rparr>])
                  ''06291107439358'' EXACT
           else if startsWith ''06291107439358'' ''0''
                   \<and> masterIndex (Master_build [\<lparr>barcode = ''6291107439358'', name = ''Zyrtec'', rms = []\<rparr>])
                        (slice_from ''06291107439358'' 1) \<noteq> None
             then entryAt (Master_build [\<lparr>barcode = ''6291107439358'', name = ''Zyrtec'', rms = []\<rparr>])
                    (slice_from ''06291107439358'' 1) PARTIAL
           else if masterIndex (Master_build [\<lparr>barcode = ''6291107439358'', name = ''Zyrtec'', rms = []\<rparr>])
                     (slice_last ''06291107439358'' 8) \<noteq> None
             then entryAt (Master_build [\<lparr>barcode = ''6291107439358'', name = ''Zyrtec'', rms = []\<rparr>])
                    (slice_last ''06291107439358'' 8) PARTIAL
           else notFound)"
    by (rule conjunct1)
  then have "Master_find (Master_build [\<lparr>barcode = ''6291107439358'', name = ''Zyrtec'', rms = []\<rparr>])
          ''06291107439358''
        = entryAt (Master_build [\<lparr>barcode = ''6291107439358'', name = ''Zyrtec'', rms = []\<rparr>])
            ''06291107439358'' EXACT"
    by (simp only: k simp_thms if_True)
  with h show ?thesis by blast
qed

section \<open>Building the index\<close>

text \<open>
  Claim C6 says that a later entry with a colliding key is shadowed and never merged with the
  earlier registration. The names and the RMS codes are kept in two maps, and an entry
  without an RMS code leaves the second one alone: of two entries with the bar code
  \<^verbatim>\<open>6291107439358\<close>, the first without an RMS code, the index keeps the name of the first
  and the RMS code of the second, and \<^verbatim>\<open>Master.find\<close> answers with both.
\<close>

theorem later_entry_merged:
  "masterIndex
     (Master_build [\<lparr>barcode = ''6291107439358'', name = ''First'', rms = []\<rparr>,
                    \<lparr>barcode = ''6291107439358'', name = ''Second'', rms = ''R2''\<rparr>])
     ''6291107439358'' = Some ''First''
   \<and> masterRMS
     (Master_build [\<lparr>barcode = ''6291107439358'', name = ''First'', rms = []\<rparr>,
                    \<lparr>barcode = ''6291107439358'', name = ''Second'', rms = ''R2''\<rparr>])
     ''6291107439358'' = Some ''R2''
   \<and> Master_find
     (Master_build [\<lparr>barcode = ''6291107439358'', name = ''First'', rms = []\<rparr>,
                    \<lparr>barcode = ''6291107439358'', name = ''Second'', rms = ''R2''\<rparr>])
     ''06291107439358'' = \<lparr>f_name = ''First'', f_rms = ''R2'', how = EXACT\<rparr>"
  by code_simp

text \<open>
  Claim C6, amended. \<^verbatim>\<open>Master.build\<close> skips every entry whose bar code has fewer than 8
  digits; an entry it keeps files itself under the digits, their form padded to 14, that form
  without its leading zero when it starts with one, and the last 8 digits of that form, and
  under nothing else. For every key the name in the index is the name of the first entry
  that files itself under the key, and is never overwritten; the RMS code is that of the
  first such entry that has an RMS code, which may be a later entry than the one the name
  comes from.
\<close>

theorem build_first_wins:
  "masterIndex (Master_build data) k = map_option name (find (\<lambda>it. claimsKey it k) data)
   \<and> masterRMS (Master_build data) k
       = map_option rms (find (\<lambda>it. claimsKey it k \<and> rms it \<noteq> []) data)
   \<and> claimsKey it k =
       (let bc = stripNonDigits (barcode it); g14 = padStart bc 14 CHR ''0''
        in 8 \<le> length bc
           \<and> (k = bc \<or> k = g14 \<or> (startsWith g14 ''0'' \<and> k = slice_from g14 1)
                \<or> k = slice_last g14 8))
   \<and> length (keysOf (stripNonDigits (barcode it))) \<le> 4"
proof -
  have "length (keysOf (stripNonDigits (barcode it))) \<le> 4"
    unfolding keysOf_def Let_def
    by (rule order_trans [OF length_filter_le]) simp
  then show ?thesis
    using claimsKey_four [of it k]
    by (simp add: Master_build_def buildLoop_index buildLoop_rms)
qed

section \<open>The GTIN of a GS1 parse\<close>

text \<open>
  Claim C7 says that a parse result of a GS1 format has a GTIN that is absent or made of
  exactly 14 digits. The unified parser classifies \<^verbatim>\<open>01ABCDEFGHIJKLMN17\<close> as GS1 and cuts
  the GTIN \<^verbatim>\<open>ABCDEFGHIJKLMN\<close> out of it, 14 characters none of which is a digit; and
  \<^verbatim>\<open>GS1.parse\<close> of app.js, on \<^verbatim>\<open>010001234567890501AB\<close>, reads the application identifier 01
  a second time and leaves the GTIN \<^verbatim>\<open>AB\<close>.
\<close>

theorem gs1_gtin_not_14_digits:
  "p_format (parse ''01ABCDEFGHIJKLMN17'') = Some GS1_FULL
   \<and> p_gtin (parse ''01ABCDEFGHIJKLMN17'') = Some ''ABCDEFGHIJKLMN''
   \<and> isGS1 (GS1_parse ''010001234567890501AB'')
   \<and> gtin (GS1_parse ''010001234567890501AB'') = ''AB''"
  by code_simp

section \<open>The GTIN of a plain code\<close>

text \<open>
  Claim C8 says that for an input that is not GS1 and has 14, 13, 12 or 8 digits the GTIN of
  the parse is the digits padded with zeros to 14 characters. The unified parser classifies
  \<^verbatim>\<open>1234567890123\<close> as EAN13 and leaves the GTIN empty, with the 13 digits, unpadded, under
  \<^verbatim>\<open>code\<close> and \<^verbatim>\<open>ean13\<close>; \<^verbatim>\<open>GS1.parse\<close> of app.js pads them.
\<close>

theorem ean13_gtin_absent:
  "p_format (parse ''1234567890123'') = Some EAN13
   \<and> p_gtin (parse ''1234567890123'') = None
   \<and> p_code (parse ''1234567890123'') = Some ''1234567890123''
   \<and> ean13 (parse ''1234567890123'') = Some ''1234567890123''
   \<and> gtin (GS1_parse ''1234567890123'') = ''01234567890123''"
  by code_simp

text \<open>
  Claim C8, amended. \<^verbatim>\<open>GS1.parse\<close> of app.js, on every input it does not take for GS1 and
  that has 8 to 14 digits (so 14, 13, 12 or 8), sets the GTIN to the digits padded with zeros
  to 14 characters. The unified parser sets the GTIN for an input classified GTIN14 only, to
  its 14 digits, which are their own padded form; for an input classified EAN13, LEGACY12 or
  EAN8 its GTIN is empty and the digits are under \<^verbatim>\<open>code\<close>, unpadded.
\<close>

theorem plain_gtin_padded:
  "(\<not> isGS1 (GS1_parse b) \<and> 8 \<le> length (stripNonDigits b) \<and> length (stripNonDigits b) \<le> 14
      \<longrightarrow> gtin (GS1_parse b) = padStart (stripNonDigits b) 14 CHR ''0'')
   \<and> (detectFormat b = GTIN14
      \<longrightarrow> p_gtin (parse b) = Some (padStart (stripNonDigits b) 14 CHR ''0'')
          \<and> padStart (stripNonDigits b) 14 CHR ''0'' = stripNonDigits b)
   \<and> (detectFormat b = EAN13 \<or> detectFormat b = LEGACY12 \<or> detectFormat b = EAN8
      \<longrightarrow> p_gtin (parse b) = None \<and> p_code (parse b) = Some (stripNonDigits b))"
proof (intro conjI impI)
  assume "\<not> isGS1 (GS1_parse b) \<and> 8 \<le> length (stripNonDigits b)
    \<and> length (stripNonDigits b) \<le> 14"
  then show "gtin (GS1_parse b) = padStart (stripNonDigits b) 14 CHR ''0''"
    by (simp add: GS1_parse_plain)
next
  assume f: "detectFormat b = GTIN14"
  then have len: "length (stripNonDigits b) = 14"
    by (auto simp: detectFormat_def Let_def split: if_splits)
  then show pad: "padStart (stripNonDigits b) 14 CHR ''0'' = stripNonDigits b"
    by (simp add: padStart_full)
  from f have "parse b = parseSimple b GTIN14" by (simp add: parse_simple)
  with pad show "p_gtin (parse b) = Some (padStart (stripNonDigits b) 14 CHR ''0'')"
    by (simp add: parseSimple_def emptyParsed_def Let_def)
next
  assume f: "detectFormat b = EAN13 \<or> detectFormat b = LEGACY12 \<or> detectFormat b = EAN8"
  then have p: "parse b = parseSimple b (detectFormat b)" by (auto simp: parse_simple)
  from f show "p_gtin (parse b) = None"
    unfolding p by (auto simp: parseSimple_def emptyParsed_def Let_def)
  show "p_code (parse b) = Some (stripNonDigits b)"
    unfolding p by (simp add: parseSimple_def emptyParsed_def Let_def)
qed

theorem plain_gtin_padded_witness:
  "\<not> isGS1 (GS1_parse ''1234567890123'') \<and> 8 \<le> length (stripNonDigits ''1234567890123'')
   \<and> length (stripNonDigits ''1234567890123'') \<le> 14
   \<and> gtin (GS1_parse ''1234567890123'') = ''01234567890123''
   \<and> detectFormat ''12345678901234'' = GTIN14
   \<and> p_gtin (parse ''12345678901234'') = Some ''12345678901234''
   \<and> detectFormat ''1234567890123'' = EAN13
   \<and> p_gtin (parse ''1234567890123'') = None"
proof -
  have h: "\<not> isGS1 (GS1_parse ''1234567890123'') \<and> 8 \<le> length (stripNonDigits ''1234567890123'')
      \<and> length (stripNonDigits ''1234567890123'') \<le> 14"
    by code_simp
  have v: "padStart (stripNonDigits ''1234567890123'') 14 CHR ''0'' = ''01234567890123''"
    by code_simp
  have f14: "detectFormat ''12345678901234'' = GTIN14" by code_simp
  have v14: "padStart (stripNonDigits ''12345678901234'') 14 CHR ''0'' = ''12345678901234''"
    by code_simp
  have f13: "detectFormat ''1234567890123'' = EAN13" by code_simp
  have a: "gtin (GS1_parse ''1234567890123'') = ''01234567890123''"
  proof -
    from plain_gtin_padded [of "''1234567890123''"] h
    have "gtin (GS1_parse ''1234567890123'') = padStart (stripNonDigits ''1234567890123'') 14 CHR ''0''"
      by blast
    then show ?thesis by (simp only: v)
  qed
  have b: "p_gtin (parse ''12345678901234'') = Some ''12345678901234''"
  proof -
    from plain_gtin_padded [of "''12345678901234''"] f14
    have "p_gtin (parse ''12345678901234'')
            = Some (padStart (stripNonDigits ''12345678901234'') 14 CHR ''0'')"
      by blast
    then show ?thesis by (simp only: v14)
  qed
  have c: "p_gtin (parse ''1234567890123'') = None"
    using plain_gtin_padded [of "''1234567890123''"] f13 by blast
  from h a b c f14 f13 show ?thesis by blast
qed

section \<open>The expiry status and the zone\<close>

lemma startOfDay_ahead:
  assumes "0 \<le> tz" and "tz < msPerDay"
  shows "startOfDay tz (msPerDay * D) = msPerDay * D - tz"
proof -
  from assms have "(msPerDay * D + tz) div msPerDay = D"
    by (simp add: msPerDay_def)
  then show ?thesis by (simp add: startOfDay_def mult.commute)
qed

lemma startOfDay_behind:
  assumes "- msPerDay \<le> tz" and "tz < 0"
  shows "startOfDay tz (msPerDay * D) = msPerDay * (D - 1) - tz"
proof -
  have "msPerDay * D + tz = msPerDay * (D - 1) + (tz + msPerDay)"
    by (simp add: algebra_simps)
  moreover from assms have "(msPerDay * (D - 1) + (tz + msPerDay)) div msPerDay = D - 1"
    by (simp add: msPerDay_def)
  ultimately have "(msPerDay * D + tz) div msPerDay = D - 1" by (simp only:)
  then show ?thesis by (simp add: startOfDay_def mult.commute)
qed

text \<open>
  In a zone at or ahead of UTC the status goes by the difference between the day number \<open>D\<close>
  of the date and the local day number of the clock; in a zone behind UTC, by that
  difference less one.
\<close>

lemma status_ahead_of_utc:
  assumes "0 \<le> tz" and "tz < msPerDay" and "dateStr \<noteq> []"
    and "parseDate dateStr = Some (msPerDay * D)"
  shows "GS1_status soon tz now dateStr =
     (if D - (now + tz) div msPerDay < 0 then expired
      else if D - (now + tz) div msPerDay \<le> soon then expiring else ok)"
proof -
  have "(msPerDay * D - tz - ((now + tz) div msPerDay * msPerDay - tz)) div msPerDay
        = D - (now + tz) div msPerDay"
  proof -
    have "msPerDay * D - tz - ((now + tz) div msPerDay * msPerDay - tz)
          = (D - (now + tz) div msPerDay) * msPerDay"
      by (simp add: algebra_simps)
    then show ?thesis by (simp add: msPerDay_def)
  qed
  then show ?thesis
    using assms(3,4) startOfDay_ahead [OF assms(1,2), of D]
    by (simp add: GS1_status_def Let_def) (simp add: startOfDay_def)
qed

lemma status_behind_utc:
  assumes "- msPerDay \<le> tz" and "tz < 0" and "dateStr \<noteq> []"
    and "parseDate dateStr = Some (msPerDay * D)"
  shows "GS1_status soon tz now dateStr =
     (if D - 1 - (now + tz) div msPerDay < 0 then expired
      else if D - 1 - (now + tz) div msPerDay \<le> soon then expiring else ok)"
proof -
  have "(msPerDay * (D - 1) - tz - ((now + tz) div msPerDay * msPerDay - tz)) div msPerDay
        = D - 1 - (now + tz) div msPerDay"
  proof -
    have "msPerDay * (D - 1) - tz - ((now + tz) div msPerDay * msPerDay - tz)
          = (D - 1 - (now + tz) div msPerDay) * msPerDay"
      by (simp add: algebra_simps)
    then show ?thesis by (simp add: msPerDay_def)
  qed
  then show ?thesis
    using assms(3,4) startOfDay_behind [OF assms(1,2), of D]
    by (simp add: GS1_status_def Let_def) (simp add: startOfDay_def)
qed

section \<open>The expiry status west of Greenwich\<close>

text \<open>
  Claim C9 says that a date whose whole-day difference from today is 0 is classified as
  expiring. At noon of 2026-01-01 in a zone five hours behind UTC, the local day starts at
  05:00 UTC of 2026-01-01, and \<^verbatim>\<open>GS1.status\<close> of the date \<^verbatim>\<open>2026-01-01\<close>, today's, is
  \<open>expired\<close>: the date-only string is read as midnight UTC, which is still the evening of
  2025-12-31 there. In UTC the same call gives \<open>expiring\<close>.
\<close>

theorem status_of_today_behind_utc:
  "startOfDay (- 18000000) (msPerDay * dayNumber 2026 1 1 + 61200000)
     = msPerDay * dayNumber 2026 1 1 + 18000000
   \<and> GS1_status SOON_DAYS (- 18000000) (msPerDay * dayNumber 2026 1 1 + 61200000)
        ''2026-01-01'' = expired
   \<and> GS1_status SOON_DAYS 0 (msPerDay * dayNumber 2026 1 1 + 43200000)
        ''2026-01-01'' = expiring"
  by code_simp

section \<open>The OCR text\<close>

text \<open>
  Claim C10 says that every lowercase letter l of the OCR text becomes the digit 1 before
  the date patterns are tried. The text is put in upper case first, so a lowercase l has
  become \<^verbatim>\<open>L\<close> when the replacement of \<^verbatim>\<open>[|Il]\<close> runs, and stays a letter: the text
  \<^verbatim>\<open>exp l2/2026\<close> is matched as \<^verbatim>\<open>EXP L2/2026\<close>, while \<^verbatim>\<open>|\<close>, \<^verbatim>\<open>I\<close>, \<^verbatim>\<open>i\<close> become 1 and
  \<^verbatim>\<open>O\<close>, \<^verbatim>\<open>o\<close> become 0.
\<close>

theorem normalise_keeps_lowercase_l:
  "normalise ''l'' = ''L''
   \<and> normalise ''exp l2/2026'' = ''EXP L2/2026''
   \<and> normalise ''|IiOo'' = ''11100''"
  by code_simp

end
